theory Spec2Isabelle
  imports Complex_Main "HOL-Library.AList"
begin

section \<open>Values, samples and observations\<close>

text \<open>
  The exporter (\<^verbatim>\<open>exercises.py\<close>) reads its samples with \<^verbatim>\<open>json.load\<close>, so a sensor
  value is a Python \<^verbatim>\<open>int\<close> or a Python \<^verbatim>\<open>float\<close>. A float is modelled by the rational
  it denotes (no rounding, no NaN, no infinity). A timestamp is an integer number of
  milliseconds since the epoch.
\<close>

datatype number = PInt int | PFloat rat

text \<open>Python truthiness of a number: everything but zero.\<close>

fun truthy :: "number \<Rightarrow> bool" where
  "truthy (PInt i) = (i \<noteq> 0)"
| "truthy (PFloat r) = (r \<noteq> 0)"

text \<open>\<^verbatim>\<open>d.get(k)\<close> used as a condition: the key is there and its value is truthy.\<close>

fun get_truthy :: "number option \<Rightarrow> bool" where
  "get_truthy None = False"
| "get_truthy (Some v) = truthy v"

text \<open>\<^verbatim>\<open>int(x)\<close> on a number truncates towards zero.\<close>

fun py_int :: "number \<Rightarrow> int" where
  "py_int (PInt i) = i"
| "py_int (PFloat r) = (if 0 \<le> r then \<lfloor>r\<rfloor> else \<lceil>r\<rceil>)"

text \<open>\<^verbatim>\<open>round(x, 0)\<close> on a float rounds half to even.\<close>

definition py_round :: "rat \<Rightarrow> int" where
  "py_round r =
     (let f = \<lfloor>r\<rfloor>; d = r - of_int f
      in if d < 1 / 2 then f else if 1 / 2 < d then f + 1
         else if even f then f else f + 1)"

text \<open>\<^verbatim>\<open>str(i)\<close> on an integer: its decimal digits.\<close>

fun str_nat :: "nat \<Rightarrow> string" where
  "str_nat n =
     (if n < 10 then [char_of (48 + n)]
      else str_nat (n div 10) @ [char_of (48 + n mod 10)])"

definition str_int :: "int \<Rightarrow> string" where
  "str_int i = (if i < 0 then CHR ''-'' # str_nat (nat (- i)) else str_nat (nat i))"

text \<open>
  The library functions the exporter calls and that are no part of this repository are
  taken as parameters:
  \<^item> \<open>utc_time_string ts\<close> is
    \<^verbatim>\<open>datetime.fromtimestamp(ts / 1000, timezone.utc).strftime("%Y-%m-%dT%H:%M:%S.000Z")\<close>;
  \<^item> \<open>float_of_string s\<close> is \<^verbatim>\<open>float(s)\<close> and \<open>int_of_string s\<close> is \<^verbatim>\<open>int(s)\<close> on a
    string, \<open>None\<close> where Python raises \<^verbatim>\<open>ValueError\<close>;
  \<^item> \<open>string_of_float r\<close> is \<^verbatim>\<open>str(r)\<close> on a float.

  The time string is taken to exist for every timestamp: \<^verbatim>\<open>fromtimestamp\<close> raises for a
  timestamp outside the years 1 to 9999, and the model has no branch for that.
\<close>

record builtins =
  utc_time_string :: "int \<Rightarrow> string"
  float_of_string :: "string \<Rightarrow> rat option"
  int_of_string :: "string \<Rightarrow> int option"
  string_of_float :: "rat \<Rightarrow> string"

fun py_str :: "builtins \<Rightarrow> number \<Rightarrow> string" where
  "py_str rt (PInt i) = str_int i"
| "py_str rt (PFloat r) = string_of_float rt r"

datatype error = KeyError | ValueError

text \<open>
  A sample is a dictionary with the key \<^verbatim>\<open>start_time\<close>. A positional sample has
  \<^verbatim>\<open>latitude\<close> and \<^verbatim>\<open>longitude\<close> and may have \<^verbatim>\<open>altitude\<close>; a physiological (live)
  sample may have any of \<^verbatim>\<open>distance\<close>, \<^verbatim>\<open>cadence\<close>, \<^verbatim>\<open>heart_rate\<close>, \<^verbatim>\<open>speed\<close>.
\<close>

record sample =
  start_time :: int

record location = sample +
  latitude :: number
  longitude :: number
  altitude :: "number option"

record live = sample +
  distance :: "number option"
  cadence :: "number option"
  heart_rate :: "number option"
  speed :: "number option"

text \<open>An entry of \<^verbatim>\<open>merged_data\<close>: the key \<^verbatim>\<open>time\<close> and any of the other keys.\<close>

record observation =
  time :: string
  latitude :: "number option"
  longitude :: "number option"
  altitude :: "number option"
  distance :: "number option"
  cadence :: "number option"
  heart_rate :: "number option"
  speed :: "number option"

text \<open>The keys the live-data loop tries, \<^verbatim>\<open>["distance", "cadence", "heart_rate", "speed"]\<close>.\<close>

datatype key = Distance | Cadence | HeartRate | Speed

definition live_keys :: "key list" where
  "live_keys = [Distance, Cadence, HeartRate, Speed]"

fun entry_get :: "live \<Rightarrow> key \<Rightarrow> number option" where
  "entry_get e Distance = live.distance e"
| "entry_get e Cadence = live.cadence e"
| "entry_get e HeartRate = live.heart_rate e"
| "entry_get e Speed = live.speed e"

fun obs_get :: "observation \<Rightarrow> key \<Rightarrow> number option" where
  "obs_get ob Distance = observation.distance ob"
| "obs_get ob Cadence = observation.cadence ob"
| "obs_get ob HeartRate = observation.heart_rate ob"
| "obs_get ob Speed = observation.speed ob"

fun obs_set :: "key \<Rightarrow> number \<Rightarrow> observation \<Rightarrow> observation" where
  "obs_set Distance v ob = ob\<lparr>observation.distance := Some v\<rparr>"
| "obs_set Cadence v ob = ob\<lparr>observation.cadence := Some v\<rparr>"
| "obs_set HeartRate v ob = ob\<lparr>observation.heart_rate := Some v\<rparr>"
| "obs_set Speed v ob = ob\<lparr>observation.speed := Some v\<rparr>"

text \<open>The dictionary \<^verbatim>\<open>{"time": time}\<close>.\<close>

definition time_only :: "string \<Rightarrow> observation" where
  "time_only t =
     \<lparr>time = t, latitude = None, longitude = None, altitude = None, distance = None,
      cadence = None, heart_rate = None, speed = None\<rparr>"

text \<open>
  \<^verbatim>\<open>merged_data\<close> is a Python dictionary from timestamps to observations. It keeps its
  insertion order, which \<^verbatim>\<open>dict(sorted(merged_data.items()))\<close> later replaces by the order
  of the keys, so it is an association list with distinct keys: \<open>AList.update\<close> replaces
  the value of a key that is there and appends a new key at the end, as an assignment
  \<^verbatim>\<open>merged_data[k] = v\<close> does.
\<close>

type_synonym merged = "(int \<times> observation) list"

definition has_key :: "merged \<Rightarrow> int \<Rightarrow> bool" where
  "has_key m k = (k \<in> set (map fst m))"

section \<open>The nearest timestamp\<close>

text \<open>The loop of \<^verbatim>\<open>find_nearest_time\<close>, with \<^verbatim>\<open>closest_match\<close> as its accumulator.\<close>

fun nearest_loop :: "int \<Rightarrow> int \<Rightarrow> int list \<Rightarrow> int" where
  "nearest_loop ts closest_match [] = closest_match"
| "nearest_loop ts closest_match (t # timestamps) =
     nearest_loop ts (if \<bar>t - ts\<bar> < \<bar>closest_match - ts\<bar> then t else closest_match) timestamps"

definition find_nearest_time :: "int \<Rightarrow> 'a sample_scheme list \<Rightarrow> int" where
  "find_nearest_time ts data = nearest_loop ts 0 (sort (map start_time data))"

section \<open>Merging location data and live data\<close>

text \<open>The observation the first loop stores for a positional sample.\<close>

definition location_observation :: "builtins \<Rightarrow> location \<Rightarrow> observation" where
  "location_observation rt entry =
     \<lparr>time = utc_time_string rt (start_time entry),
      latitude = Some (location.latitude entry),
      longitude = Some (location.longitude entry),
      altitude = location.altitude entry,
      distance = None, cadence = None, heart_rate = None, speed = None\<rparr>"

definition location_step :: "builtins \<Rightarrow> location \<Rightarrow> merged \<Rightarrow> merged" where
  "location_step rt entry m =
     (if has_key m (start_time entry) then m
      else AList.update (start_time entry) (location_observation rt entry) m)"

fun location_loop :: "builtins \<Rightarrow> location list \<Rightarrow> merged \<Rightarrow> merged" where
  "location_loop rt [] m = m"
| "location_loop rt (entry # rest) m = location_loop rt rest (location_step rt entry m)"

text \<open>
  One round of the inner loop over the keys. The lookup \<^verbatim>\<open>merged_data[ts]\<close> cannot fail,
  since the key has just been created where it was missing.
\<close>

definition key_step :: "string \<Rightarrow> int \<Rightarrow> live \<Rightarrow> key \<Rightarrow> merged \<Rightarrow> merged" where
  "key_step t ts entry k m =
     (case entry_get entry k of
        None \<Rightarrow> m
      | Some v \<Rightarrow>
          (if \<not> truthy v then m
           else
             let m1 = (if has_key m ts then m else AList.update ts (obs_set k v (time_only t)) m)
             in (case map_of m1 ts of
                   None \<Rightarrow> m1
                 | Some ob \<Rightarrow>
                     (if obs_get ob k = None then AList.update ts (obs_set k v ob) m1 else m1))))"

text \<open>
  The timestamp a live sample is stored under: its own if that is a key already or if
  there is no location data, the nearest location timestamp otherwise.
\<close>

definition effective_time :: "location list \<Rightarrow> merged \<Rightarrow> live \<Rightarrow> int" where
  "effective_time locationdata m entry =
     (if \<not> has_key m (start_time entry) \<and> locationdata \<noteq> []
      then find_nearest_time (start_time entry) locationdata
      else start_time entry)"

text \<open>
  What one round of the second loop leaves in the sample itself: the assignments
  \<^verbatim>\<open>entry["start_time"] = ts\<close> and \<^verbatim>\<open>entry["heart_rate"] = int(entry["heart_rate"])\<close> write
  into the dictionary of the caller's list.
\<close>

definition coerce_heart_rate :: "live \<Rightarrow> live" where
  "coerce_heart_rate entry =
     (case live.heart_rate entry of
        None \<Rightarrow> entry
      | Some h \<Rightarrow> entry\<lparr>live.heart_rate := Some (PInt (py_int h))\<rparr>)"

definition updated_entry :: "location list \<Rightarrow> merged \<Rightarrow> live \<Rightarrow> live" where
  "updated_entry locationdata m entry =
     coerce_heart_rate
       (if \<not> has_key m (start_time entry) \<and> locationdata \<noteq> []
        then entry\<lparr>start_time := find_nearest_time (start_time entry) locationdata\<rparr>
        else entry)"

definition live_step :: "builtins \<Rightarrow> location list \<Rightarrow> live \<Rightarrow> merged \<Rightarrow> merged \<times> live" where
  "live_step rt locationdata entry m =
     (let ts = effective_time locationdata m entry;
          entry' = updated_entry locationdata m entry;
          t = utc_time_string rt ts
      in (fold (key_step t ts entry') live_keys m, entry'))"

fun live_loop :: "builtins \<Rightarrow> location list \<Rightarrow> live list \<Rightarrow> merged \<Rightarrow> merged \<times> live list" where
  "live_loop rt locationdata [] m = (m, [])"
| "live_loop rt locationdata (entry # rest) m =
     (let (m1, entry') = live_step rt locationdata entry m;
          (m2, rest') = live_loop rt locationdata rest m1
      in (m2, entry' # rest'))"

text \<open>The last loop, with \<^verbatim>\<open>hr\<close> as its accumulator.\<close>

fun forward_fill :: "number \<Rightarrow> merged \<Rightarrow> merged" where
  "forward_fill hr [] = []"
| "forward_fill hr ((d, ob) # rest) =
     (if get_truthy (observation.heart_rate ob)
      then (d, ob) # forward_fill (the (observation.heart_rate ob)) rest
      else (d, ob\<lparr>observation.heart_rate := Some hr\<rparr>) # forward_fill hr rest)"

text \<open>The merged data before the last loop: both loops run, then sorted by key.\<close>

definition collected :: "builtins \<Rightarrow> location list \<Rightarrow> live list \<Rightarrow> merged" where
  "collected rt locationdata livedata =
     sort_key fst (fst (live_loop rt locationdata livedata (location_loop rt locationdata [])))"

text \<open>
  \<^verbatim>\<open>merge_location_and_live_data\<close> returns the merged data; the second component is the
  state in which it leaves the list \<^verbatim>\<open>livedata\<close> of its caller.
\<close>

definition merge_location_and_live_data ::
  "builtins \<Rightarrow> location list \<Rightarrow> live list \<Rightarrow> merged \<times> live list" where
  "merge_location_and_live_data rt locationdata livedata =
     (forward_fill (PInt 0) (collected rt locationdata livedata),
      snd (live_loop rt locationdata livedata (location_loop rt locationdata [])))"

section \<open>The document\<close>

text \<open>
  An element of the XML tree: its tag, its attributes, its text and its children. The
  tag of a qualified name is written the way \<^verbatim>\<open>lxml\<close> prints it, with the namespace in
  braces. \<^verbatim>\<open>len(e)\<close> is the number of children of \<^verbatim>\<open>e\<close>.
\<close>

datatype xml = Element (tag: string) (attrib: "(string \<times> string) list")
  (content: "string option") (children: "xml list")

text \<open>\<^verbatim>\<open>parent.append(child)\<close>.\<close>

fun append_child :: "xml \<Rightarrow> xml \<Rightarrow> xml" where
  "append_child (Element t a c cs) child = Element t a c (cs @ [child])"

text \<open>\<^verbatim>\<open>XML.SubElement(parent, tag).text = s\<close>.\<close>

definition sub_text :: "xml \<Rightarrow> string \<Rightarrow> string \<Rightarrow> xml" where
  "sub_text parent t s = append_child parent (Element t [] (Some s) [])"

definition has_child :: "string \<Rightarrow> xml \<Rightarrow> bool" where
  "has_child t e = (t \<in> set (map tag (children e)))"

definition ns3_tag :: "string \<Rightarrow> string" where
  "ns3_tag name = ''{http://www.garmin.com/xmlschemas/ActivityExtension/v2}'' @ name"

text \<open>
  \<^verbatim>\<open>create_lap\<close>, one definition for each optional part. \<^verbatim>\<open>int(duration)\<close> and
  \<^verbatim>\<open>float(...)\<close> raise \<^verbatim>\<open>ValueError\<close> on a string that is no number.
\<close>

definition lap_duration :: "builtins \<Rightarrow> string \<Rightarrow> xml \<Rightarrow> error + xml" where
  "lap_duration rt duration lap =
     (if duration \<noteq> [] then
        (case int_of_string rt duration of
           None \<Rightarrow> Inl ValueError
         | Some d \<Rightarrow> Inr (sub_text lap ''TotalTimeSeconds'' (string_of_float rt (of_int d / 1000))))
      else Inr lap)"

definition lap_distance :: "string \<Rightarrow> xml \<Rightarrow> xml" where
  "lap_distance distance_m lap =
     (if distance_m \<noteq> [] then sub_text lap ''DistanceMeters'' distance_m else lap)"

definition lap_max_speed :: "string \<Rightarrow> xml \<Rightarrow> xml" where
  "lap_max_speed max_speed lap =
     (if max_speed \<noteq> [] then sub_text lap ''MaximumSpeed'' max_speed else lap)"

definition lap_calories :: "builtins \<Rightarrow> string \<Rightarrow> xml \<Rightarrow> error + xml" where
  "lap_calories rt calories lap =
     (if calories \<noteq> [] then
        (case float_of_string rt calories of
           None \<Rightarrow> Inl ValueError
         | Some c \<Rightarrow> Inr (sub_text lap ''Calories'' (str_int (py_round c))))
      else Inr lap)"

text \<open>The element \<^verbatim>\<open><t><Value>str(int(float(s)))</Value></t>\<close>.\<close>

definition bpm :: "builtins \<Rightarrow> string \<Rightarrow> string \<Rightarrow> error + xml" where
  "bpm rt t s =
     (case float_of_string rt s of
        None \<Rightarrow> Inl ValueError
      | Some r \<Rightarrow> Inr (Element t [] None [Element ''Value'' [] (Some (str_int (py_int (PFloat r)))) []]))"

definition lap_avg_hr :: "builtins \<Rightarrow> string \<Rightarrow> xml \<Rightarrow> error + xml" where
  "lap_avg_hr rt avg_hr lap =
     (if avg_hr \<noteq> [] \<and> avg_hr \<noteq> ''0.0'' then
        (case bpm rt ''AverageHeartRateBpm'' avg_hr of
           Inl e \<Rightarrow> Inl e
         | Inr ahr \<Rightarrow> Inr (append_child lap ahr))
      else Inr lap)"

definition lap_max_hr :: "builtins \<Rightarrow> string \<Rightarrow> string \<Rightarrow> xml \<Rightarrow> error + xml" where
  "lap_max_hr rt avg_hr max_hr lap =
     (if max_hr \<noteq> [] \<and> avg_hr \<noteq> ''0.0'' then
        (case bpm rt ''MaximumHeartRateBpm'' max_hr of
           Inl e \<Rightarrow> Inl e
         | Inr mhr \<Rightarrow> Inr (append_child lap mhr))
      else Inr lap)"

definition lap_extensions :: "string \<Rightarrow> string \<Rightarrow> string \<Rightarrow> xml \<Rightarrow> xml" where
  "lap_extensions avg_speed avg_cadence max_cadence lap =
     (if avg_speed \<noteq> [] \<or> avg_cadence \<noteq> [] \<or> max_cadence \<noteq> [] then
        let lx = Element (ns3_tag ''LX'') [] None [];
            lx = (if avg_speed \<noteq> [] \<and> avg_speed \<noteq> ''0.0''
                  then sub_text lx (ns3_tag ''AvgSpeed'') avg_speed else lx);
            lx = (if avg_cadence \<noteq> [] \<and> avg_cadence \<noteq> ''0.0''
                  then sub_text lx (ns3_tag ''AvgRunCadence'') avg_cadence else lx);
            lx = (if max_cadence \<noteq> [] \<and> max_cadence \<noteq> ''0.0''
                  then sub_text lx (ns3_tag ''MaxRunCadence'') max_cadence else lx)
        in append_child lap (Element ''Extensions'' [] None [lx])
      else lap)"

text \<open>Sequencing of steps that may raise.\<close>

definition and_then :: "error + 'a \<Rightarrow> ('a \<Rightarrow> error + 'b) \<Rightarrow> error + 'b" where
  "and_then r f = (case r of Inl e \<Rightarrow> Inl e | Inr x \<Rightarrow> f x)"

text \<open>A value of a row of the exercise list: the text of a CSV cell.\<close>

type_synonym cell = string

definition create_lap ::
  "builtins \<Rightarrow> string \<Rightarrow> cell \<Rightarrow> cell \<Rightarrow> cell \<Rightarrow> cell \<Rightarrow> cell \<Rightarrow> cell \<Rightarrow> cell \<Rightarrow> cell \<Rightarrow> cell
     \<Rightarrow> error + xml" where
  "create_lap rt lap_start duration distance_m calories avg_hr max_hr avg_speed max_speed
       avg_cadence max_cadence =
     and_then (lap_duration rt duration (Element ''Lap'' [(''StartTime'', lap_start)] None []))
       (\<lambda>lap. and_then (lap_calories rt calories (lap_max_speed max_speed (lap_distance distance_m lap)))
       (\<lambda>lap. and_then (lap_avg_hr rt avg_hr lap)
       (\<lambda>lap. and_then (lap_max_hr rt avg_hr max_hr lap)
       (\<lambda>lap. Inr (lap_extensions avg_speed avg_cadence max_cadence
                 (sub_text (sub_text lap ''Intensity'' ''Active'') ''TriggerMethod'' ''Manual''))))))"

text \<open>
  \<^verbatim>\<open>create_trackpoint\<close>. \<^verbatim>\<open>data["latitude"]\<close> raises \<^verbatim>\<open>KeyError\<close> where the key is missing;
  the result \<open>Inr None\<close> is Python's \<^verbatim>\<open>None\<close>, for a trackpoint with nothing but its time.
\<close>

definition trackpoint_position :: "builtins \<Rightarrow> observation \<Rightarrow> xml \<Rightarrow> error + xml" where
  "trackpoint_position rt data trackpoint =
     (if get_truthy (observation.altitude data) \<and> get_truthy (observation.longitude data) then
        (case observation.latitude data of
           None \<Rightarrow> Inl KeyError
         | Some la \<Rightarrow>
             Inr (append_child trackpoint
                    (Element ''Position'' [] None
                       [Element ''LatitudeDegrees'' [] (Some (py_str rt la)) [],
                        Element ''LongitudeDegrees'' []
                          (Some (py_str rt (the (observation.longitude data)))) []])))
      else Inr trackpoint)"

definition trackpoint_heart_rate :: "builtins \<Rightarrow> observation \<Rightarrow> xml \<Rightarrow> xml" where
  "trackpoint_heart_rate rt data trackpoint =
     (if get_truthy (observation.heart_rate data) then
        append_child trackpoint
          (Element ''HeartRateBpm'' [] None
             [Element ''Value'' [] (Some (py_str rt (the (observation.heart_rate data)))) []])
      else trackpoint)"

definition trackpoint_cadence :: "builtins \<Rightarrow> observation \<Rightarrow> xml \<Rightarrow> xml" where
  "trackpoint_cadence rt data trackpoint =
     (if get_truthy (observation.cadence data) then
        sub_text trackpoint ''Cadence'' (py_str rt (the (observation.cadence data)))
      else trackpoint)"

definition create_trackpoint :: "builtins \<Rightarrow> observation \<Rightarrow> error + xml option" where
  "create_trackpoint rt data =
     and_then
       (trackpoint_position rt data
          (sub_text (Element ''Trackpoint'' [] None []) ''Time'' (time data)))
       (\<lambda>trackpoint.
          let trackpoint = trackpoint_cadence rt data (trackpoint_heart_rate rt data trackpoint)
          in if length (children trackpoint) = 1 then Inr None else Inr (Some trackpoint))"

definition create_activity :: "string \<Rightarrow> string \<Rightarrow> xml" where
  "create_activity a_id sport = sub_text (Element ''Activity'' [(''Sport'', sport)] None []) ''Id'' a_id"

definition create_root :: xml where
  "create_root =
     Element ''TrainingCenterDatabase''
       [(''version'', ''1.1''),
        (''{http://www.w3.org/2001/XMLSchema-instance}schemaLocation'',
         ''http://www.garmin.com/xmlschemas/TrainingCenterDatabase/v2 http://www.garmin.com/xmlschemas/TrainingCenterDatabasev2.xsd'')]
       None [Element ''Activities'' [] None []]"

text \<open>\<^verbatim>\<open>root.find("*").append(e)\<close>: the first child of the root receives \<^verbatim>\<open>e\<close>.\<close>

fun append_to_first :: "xml \<Rightarrow> xml \<Rightarrow> xml" where
  "append_to_first (Element t a c (first # others)) e = Element t a c (append_child first e # others)"
| "append_to_first (Element t a c []) e = Element t a c []"

text \<open>The loop of \<^verbatim>\<open>build_xml\<close> that appends the trackpoints that are not \<^verbatim>\<open>None\<close>.\<close>

fun append_trackpoints :: "xml \<Rightarrow> xml option list \<Rightarrow> xml" where
  "append_trackpoints track [] = track"
| "append_trackpoints track (None # tps) = append_trackpoints track tps"
| "append_trackpoints track (Some tp # tps) = append_trackpoints (append_child track tp) tps"

text \<open>
  \<^verbatim>\<open>build_xml\<close>, up to the serialisation: the result is the tree that \<^verbatim>\<open>XML.tostring\<close>
  prints. The lap is appended to the activity before the track is appended to the lap;
  both names denote one element, so the lap in the tree has the track.
\<close>

definition lap_with_track :: "xml \<Rightarrow> xml option list \<Rightarrow> xml" where
  "lap_with_track lap trackpoints =
     (let track = append_trackpoints (Element ''Track'' [] None []) trackpoints
      in if length (children track) > 0 then append_child lap track else lap)"

definition build_xml :: "string \<Rightarrow> string \<Rightarrow> xml \<Rightarrow> xml option list \<Rightarrow> xml" where
  "build_xml a_id ex_type lap trackpoints =
     append_to_first create_root
       (append_child (create_activity a_id ex_type) (lap_with_track lap trackpoints))"

definition convert_activity_type :: "string \<Rightarrow> string" where
  "convert_activity_type stype =
     (if stype = ''1002'' then ''Running'' else if stype = ''11007'' then ''Biking'' else ''Other'')"

text \<open>
  The loop of \<^verbatim>\<open>prepare_exercise_data\<close> over the merged data: one call of
  \<^verbatim>\<open>create_trackpoint\<close> for each observation, in order; the first exception ends it.
\<close>

fun trackpoints_of :: "builtins \<Rightarrow> merged \<Rightarrow> error + xml option list" where
  "trackpoints_of rt [] = Inr []"
| "trackpoints_of rt ((d, ob) # rest) =
     and_then (create_trackpoint rt ob)
       (\<lambda>tp. and_then (trackpoints_of rt rest) (\<lambda>tps. Inr (tp # tps)))"

text \<open>
  \<^verbatim>\<open>prepare_exercise_data\<close>, up to the reading of the two files: \<open>fetch_live_data\<close> and
  \<open>fetch_location_data\<close> stand for the functions of these names, which load the stores
  of a session. A row of the exercise list is a dictionary from column names to strings;
  a store is loaded only if its column in the row is a non-empty string.
\<close>

type_synonym exercise = "string \<Rightarrow> string"

definition lap_start_time :: "exercise \<Rightarrow> string" where
  "lap_start_time ex = map (\<lambda>c. if c = CHR '' '' then CHR ''T'' else c) (ex ''start_time'') @ ''Z''"

definition session_live_data :: "(string \<Rightarrow> live list) \<Rightarrow> exercise \<Rightarrow> live list" where
  "session_live_data fetch_live_data ex =
     (if ex ''live_data'' \<noteq> [] then fetch_live_data (ex ''datauuid'') else [])"

definition session_location_data :: "(string \<Rightarrow> location list) \<Rightarrow> exercise \<Rightarrow> location list" where
  "session_location_data fetch_location_data ex =
     (if ex ''location_data'' \<noteq> [] then fetch_location_data (ex ''datauuid'') else [])"

definition prepare_exercise_data ::
  "builtins \<Rightarrow> (string \<Rightarrow> live list) \<Rightarrow> (string \<Rightarrow> location list) \<Rightarrow> exercise \<Rightarrow> error + xml" where
  "prepare_exercise_data rt fetch_live_data fetch_location_data ex =
     and_then
       (create_lap rt (lap_start_time ex) (ex ''duration'') (ex ''distance'') (ex ''total_calorie'')
          (ex ''mean_heart_rate'') (ex ''max_heart_rate'') (ex ''mean_speed'') (ex ''max_speed'')
          (ex ''mean_cadence'') (ex ''max_cadence''))
       (\<lambda>lap.
          let live_data = session_live_data fetch_live_data ex;
              location_data = session_location_data fetch_location_data ex;
              data = fst (merge_location_and_live_data rt location_data live_data)
          in and_then (trackpoints_of rt data)
               (\<lambda>trackpoints.
                  Inr (build_xml (lap_start_time ex) (convert_activity_type (ex ''exercise_type''))
                         lap trackpoints)))"

section \<open>Reading the results\<close>

text \<open>The first child with a given tag, and the lap of a document.\<close>

definition child :: "string \<Rightarrow> xml \<Rightarrow> xml option" where
  "child t e = find (\<lambda>c. tag c = t) (children e)"

definition document_lap :: "xml \<Rightarrow> xml option" where
  "document_lap doc =
     (case child ''Activities'' doc of
        None \<Rightarrow> None
      | Some acts \<Rightarrow>
          (case child ''Activity'' acts of
             None \<Rightarrow> None
           | Some act \<Rightarrow> child ''Lap'' act))"

definition has_track :: "xml \<Rightarrow> bool" where
  "has_track doc = (case document_lap doc of None \<Rightarrow> False | Some lap \<Rightarrow> has_child ''Track'' lap)"

text \<open>An observation receives a \<^verbatim>\<open><Position>\<close> node.\<close>

definition position_emitted :: "builtins \<Rightarrow> observation \<Rightarrow> bool" where
  "position_emitted rt ob =
     (case create_trackpoint rt ob of
        Inr (Some tp) \<Rightarrow> has_child ''Position'' tp
      | _ \<Rightarrow> False)"

text \<open>
  A value stored under a key of an observation is kept: \<open>retains ob ob'\<close> says that
  \<open>ob'\<close> has every key of \<open>ob\<close> with the value it has in \<open>ob\<close>, and \<open>extends m m'\<close> says
  so of every observation of \<open>m\<close> and the observation of \<open>m'\<close> with the same timestamp.
\<close>

definition keeps :: "'a option \<Rightarrow> 'a option \<Rightarrow> bool" where
  "keeps a b = (a = None \<or> b = a)"

definition retains :: "observation \<Rightarrow> observation \<Rightarrow> bool" where
  "retains ob ob' =
     (time ob' = time ob \<and>
      keeps (observation.latitude ob) (observation.latitude ob') \<and>
      keeps (observation.longitude ob) (observation.longitude ob') \<and>
      keeps (observation.altitude ob) (observation.altitude ob') \<and>
      keeps (observation.distance ob) (observation.distance ob') \<and>
      keeps (observation.cadence ob) (observation.cadence ob') \<and>
      keeps (observation.heart_rate ob) (observation.heart_rate ob') \<and>
      keeps (observation.speed ob) (observation.speed ob'))"

definition extends :: "merged \<Rightarrow> merged \<Rightarrow> bool" where
  "extends m m' =
     list_all
       (\<lambda>k. case map_of m k of
               None \<Rightarrow> True
             | Some ob \<Rightarrow> (case map_of m' k of None \<Rightarrow> False | Some ob' \<Rightarrow> retains ob ob'))
       (map fst m)"

text \<open>A live sample has a truthy value under one of the keys of the loop.\<close>

definition has_data :: "live \<Rightarrow> bool" where
  "has_data entry = list_ex (\<lambda>k. get_truthy (entry_get entry k)) live_keys"

text \<open>
  The heart rate the specification asks for, in its words: the reading of the most
  recent observation of a list that has a heart rate of its own, or 0 if there is none.
\<close>

definition last_reading :: "observation list \<Rightarrow> number" where
  "last_reading obs =
     (case find (\<lambda>ob. observation.heart_rate ob \<noteq> None) (rev obs) of
        None \<Rightarrow> PInt 0
      | Some ob \<Rightarrow> the (observation.heart_rate ob))"

definition expected_heart_rate :: "observation list \<Rightarrow> nat \<Rightarrow> number" where
  "expected_heart_rate obs i =
     (case observation.heart_rate (obs ! i) of
        Some h \<Rightarrow> h
      | None \<Rightarrow> last_reading (take i obs))"

text \<open>
  Where the last loop tests \<^verbatim>\<open>merged_data[d].get("heart_rate")\<close>, a heart rate that is there
  is truthy: the second loop stores truthy values only.
\<close>

definition hr_ok :: "merged \<Rightarrow> bool" where
  "hr_ok m = (\<forall>x\<in>set m. observation.heart_rate (snd x) = None \<or> get_truthy (observation.heart_rate (snd x)))"

text \<open>A lap element that has no track yet.\<close>

definition trackless :: "xml \<Rightarrow> bool" where
  "trackless lap = (tag lap = ''Lap'' \<and> \<not> has_child ''Track'' lap)"

text \<open>
  An observation that has a latitude and neither a truthy heart rate nor a truthy
  cadence: its trackpoint is empty unless it receives a position.
\<close>

definition quiet :: "observation \<Rightarrow> bool" where
  "quiet ob = (observation.latitude ob \<noteq> None \<and> \<not> get_truthy (observation.heart_rate ob) \<and>
     \<not> get_truthy (observation.cadence ob))"

section \<open>An instance of the library functions\<close>

text \<open>
  One instance of the parameters, for the examples: \<open>iso_utc\<close> computes the calendar
  date of a timestamp (years of four digits), \<open>decimal_float\<close> and \<open>decimal_int\<close> read
  numbers in plain decimal notation and \<open>float_decimal\<close> writes the decimal expansion of
  a rational, cut after 17 digits.
\<close>

definition pad :: "nat \<Rightarrow> nat \<Rightarrow> string" where
  "pad w n = replicate (w - length (str_nat n)) CHR ''0'' @ str_nat n"

definition civil_from_days :: "int \<Rightarrow> int \<times> int \<times> int" where
  "civil_from_days z0 =
     (let z = z0 + 719468;
          era = z div 146097;
          doe = z mod 146097;
          yoe = (doe - doe div 1460 + doe div 36524 - doe div 146096) div 365;
          doy = doe - (365 * yoe + yoe div 4 - yoe div 100);
          mp = (5 * doy + 2) div 153;
          d = doy - (153 * mp + 2) div 5 + 1;
          m = (if mp < 10 then mp + 3 else mp - 9);
          y = yoe + era * 400 + (if m \<le> 2 then 1 else 0)
      in (y, m, d))"

definition iso_utc :: "int \<Rightarrow> string" where
  "iso_utc ts =
     (let secs = ts div 1000;
          sod = nat (secs mod 86400);
          (y, m, d) = civil_from_days (secs div 86400)
      in pad 4 (nat y) @ ''-'' @ pad 2 (nat m) @ ''-'' @ pad 2 (nat d) @ ''T'' @
         pad 2 (sod div 3600) @ '':'' @ pad 2 (sod mod 3600 div 60) @ '':'' @ pad 2 (sod mod 60) @
         ''.000Z'')"

fun digits_value :: "int \<Rightarrow> string \<Rightarrow> int option" where
  "digits_value acc [] = Some acc"
| "digits_value acc (c # cs) =
     (if 48 \<le> (of_char c :: int) \<and> (of_char c :: int) \<le> 57
      then digits_value (10 * acc + (of_char c - 48)) cs else None)"

definition unsigned_decimal :: "string \<Rightarrow> rat option" where
  "unsigned_decimal s =
     (let ip = takeWhile (\<lambda>c. c \<noteq> CHR ''.'') s;
          fp = drop (Suc (length ip)) s
      in if ip = [] \<and> fp = [] then None
         else (case (digits_value 0 ip, digits_value 0 fp) of
                 (Some a, Some b) \<Rightarrow> Some (of_int a + of_int b / 10 ^ length fp)
               | _ \<Rightarrow> None))"

definition decimal_float :: "string \<Rightarrow> rat option" where
  "decimal_float s =
     (case s of
        [] \<Rightarrow> None
      | c # cs \<Rightarrow>
          if c = CHR ''-'' then map_option uminus (unsigned_decimal cs)
          else if c = CHR ''+'' then unsigned_decimal cs
          else unsigned_decimal s)"

definition decimal_int :: "string \<Rightarrow> int option" where
  "decimal_int s =
     (case s of
        [] \<Rightarrow> None
      | c # cs \<Rightarrow>
          if c = CHR ''-'' then (if cs = [] then None else map_option uminus (digits_value 0 cs))
          else if c = CHR ''+'' then (if cs = [] then None else digits_value 0 cs)
          else digits_value 0 s)"

fun fraction_digits :: "nat \<Rightarrow> rat \<Rightarrow> string" where
  "fraction_digits 0 r = []"
| "fraction_digits (Suc n) r =
     (let d = \<lfloor>10 * r\<rfloor>; r' = 10 * r - of_int d
      in str_nat (nat d) @ (if r' = 0 then [] else fraction_digits n r'))"

definition float_decimal :: "rat \<Rightarrow> string" where
  "float_decimal r =
     (let a = \<bar>r\<bar>; ip = \<lfloor>a\<rfloor>
      in (if r < 0 then ''-'' else []) @ str_nat (nat ip) @ ''.'' @ fraction_digits 17 (a - of_int ip))"

definition decimal_builtins :: builtins where
  "decimal_builtins =
     \<lparr>utc_time_string = iso_utc, float_of_string = decimal_float,
      int_of_string = decimal_int, string_of_float = float_decimal\<rparr>"

text \<open>
  A row of the exercise list for the examples: a running session with location data
  and without live data; the cells of the summary are empty.
\<close>

definition example_session :: exercise where
  "example_session column =
     (if column = ''start_time'' then ''2024-05-01 10:00:00.000''
      else if column = ''exercise_type'' then ''1002''
      else if column = ''datauuid'' then ''0a1b''
      else if column = ''location_data'' then ''0a1b.location_data.json''
      else [])"

section \<open>Properties of the nearest timestamp\<close>

lemma nearest_loop_mem: "nearest_loop ts c xs \<in> insert c (set xs)"
  by (induction xs arbitrary: c) auto

lemma nearest_loop_le:
  "x \<in> insert c (set xs) \<Longrightarrow> \<bar>nearest_loop ts c xs - ts\<bar> \<le> \<bar>x - ts\<bar>"
proof (induction xs arbitrary: c x)
  case Nil
  then show ?case by simp
next
  case (Cons t xs)
  let ?c = "if \<bar>t - ts\<bar> < \<bar>c - ts\<bar> then t else c"
  have best: "\<bar>nearest_loop ts ?c xs - ts\<bar> \<le> \<bar>?c - ts\<bar>"
    by (rule Cons.IH) simp
  show ?case
  proof (cases "x \<in> set xs")
    case True
    then show ?thesis using Cons.IH [of x ?c] by simp
  next
    case False
    with Cons.prems have "x = c \<or> x = t" by auto
    then have "\<bar>?c - ts\<bar> \<le> \<bar>x - ts\<bar>" by auto
    with best show ?thesis by simp
  qed
qed

lemma nearest_loop_keep:
  "\<forall>x\<in>set xs. \<bar>c - ts\<bar> \<le> \<bar>x - ts\<bar> \<Longrightarrow> nearest_loop ts c xs = c"
  by (induction xs arbitrary: c) auto

lemma nearest_loop_closer:
  "\<exists>x\<in>set xs. \<bar>x - ts\<bar> < \<bar>c - ts\<bar> \<Longrightarrow>
   nearest_loop ts c xs \<in> set xs \<and> \<bar>nearest_loop ts c xs - ts\<bar> < \<bar>c - ts\<bar>"
proof -
  assume "\<exists>x\<in>set xs. \<bar>x - ts\<bar> < \<bar>c - ts\<bar>"
  then obtain x where x: "x \<in> set xs" "\<bar>x - ts\<bar> < \<bar>c - ts\<bar>" by blast
  from x(1) have "\<bar>nearest_loop ts c xs - ts\<bar> \<le> \<bar>x - ts\<bar>"
    by (intro nearest_loop_le) simp
  with x(2) have less: "\<bar>nearest_loop ts c xs - ts\<bar> < \<bar>c - ts\<bar>" by simp
  then have "nearest_loop ts c xs \<noteq> c" by auto
  with nearest_loop_mem [of ts c xs] less show ?thesis by auto
qed

lemma nearest_loop_least:
  "sorted xs \<Longrightarrow> t \<in> set xs \<Longrightarrow> \<bar>t - ts\<bar> = \<bar>nearest_loop ts c xs - ts\<bar> \<Longrightarrow>
   \<bar>t - ts\<bar> < \<bar>c - ts\<bar> \<Longrightarrow> nearest_loop ts c xs \<le> t"
proof (induction xs arbitrary: c)
  case Nil
  then show ?case by simp
next
  case (Cons x xs)
  let ?c = "if \<bar>x - ts\<bar> < \<bar>c - ts\<bar> then x else c"
  let ?r = "nearest_loop ts ?c xs"
  have r: "nearest_loop ts c (x # xs) = ?r" by simp
  have sorted: "sorted xs" and low: "\<forall>y\<in>set xs. x \<le> y" using Cons.prems(1) by auto
  have tie: "\<bar>t - ts\<bar> = \<bar>?r - ts\<bar>" using Cons.prems(3) by simp
  show ?case
  proof (cases "\<bar>x - ts\<bar> < \<bar>c - ts\<bar>")
    case True
    then have c: "?c = x" by simp
    show ?thesis
    proof (cases "\<bar>t - ts\<bar> < \<bar>x - ts\<bar>")
      case True
      with Cons.prems(2) have "t \<in> set xs" by auto
      from Cons.IH [OF sorted this, of x] tie True c show ?thesis by simp
    next
      case False
      have "\<bar>?r - ts\<bar> \<le> \<bar>x - ts\<bar>" using nearest_loop_le [of x x xs ts] True by simp
      with False tie have eq: "\<bar>x - ts\<bar> = \<bar>?r - ts\<bar>" by simp
      have "\<forall>y\<in>set xs. \<bar>x - ts\<bar> \<le> \<bar>y - ts\<bar>"
      proof
        fix y assume "y \<in> set xs"
        then have "\<bar>?r - ts\<bar> \<le> \<bar>y - ts\<bar>" by (intro nearest_loop_le) simp
        with eq show "\<bar>x - ts\<bar> \<le> \<bar>y - ts\<bar>" by simp
      qed
      then have "nearest_loop ts x xs = x" by (rule nearest_loop_keep)
      with c have "?r = x" by simp
      moreover have "x \<le> t" using Cons.prems(2) low by auto
      ultimately show ?thesis by simp
    qed
  next
    case False
    then have c: "?c = c" by simp
    from False Cons.prems(4) have "t \<noteq> x" by auto
    with Cons.prems(2) have "t \<in> set xs" by auto
    from Cons.IH [OF sorted this, of c] tie Cons.prems(4) c show ?thesis by simp
  qed
qed

text \<open>
  Claim C3, as stated, fails. For the target 7 and the single timestamp 1000 the result
  is the sentinel 0, which is no timestamp of the data. For the target -5 and the
  timestamps -10 and 0, both at distance 5, the result is 0 and not the smaller one,
  -10: the sentinel stands before the timestamps in the scan and a tie does not
  replace it.
\<close>

theorem find_nearest_time_minimiser_counterexample:
  "find_nearest_time 7 [\<lparr>start_time = 1000\<rparr>] \<notin> start_time ` set [\<lparr>start_time = 1000\<rparr>] \<and>
   \<bar>- 10 - (- 5)\<bar> = \<bar>0 - (- 5 :: int)\<bar> \<and>
   find_nearest_time (- 5) [\<lparr>start_time = - 10\<rparr>, \<lparr>start_time = 0\<rparr>] = 0"
  by (simp add: find_nearest_time_def)

text \<open>
  Claim C3, amended. \<^verbatim>\<open>find_nearest_time\<close> starts from the sentinel 0 and scans the
  timestamps in ascending order. If some timestamp is strictly closer to the target
  than 0 is, the result is a timestamp of the data, no timestamp of the data is closer
  to the target, and among the timestamps at the same distance it is the smallest;
  otherwise the result is the sentinel 0. The function is total: it returns for every
  list, also for a list of one sample.
\<close>

theorem find_nearest_time_first_minimiser:
  "(if \<exists>d\<in>set data. \<bar>start_time d - ts\<bar> < \<bar>0 - ts\<bar>
    then find_nearest_time ts data \<in> start_time ` set data \<and>
         (\<forall>d\<in>set data. \<bar>find_nearest_time ts data - ts\<bar> \<le> \<bar>start_time d - ts\<bar>) \<and>
         (\<forall>d\<in>set data. \<bar>start_time d - ts\<bar> = \<bar>find_nearest_time ts data - ts\<bar> \<longrightarrow>
            find_nearest_time ts data \<le> start_time d)
    else find_nearest_time ts data = 0)"
proof (cases "\<exists>d\<in>set data. \<bar>start_time d - ts\<bar> < \<bar>0 - ts\<bar>")
  case True
  let ?xs = "sort (map start_time data)"
  have set: "set ?xs = start_time ` set data" by simp
  from True have ex: "\<exists>x\<in>set ?xs. \<bar>x - ts\<bar> < \<bar>0 - ts\<bar>" by auto
  from nearest_loop_closer [OF ex]
  have mem: "nearest_loop ts 0 ?xs \<in> set ?xs" and less: "\<bar>nearest_loop ts 0 ?xs - ts\<bar> < \<bar>0 - ts\<bar>"
    by blast+
  have le: "\<forall>d\<in>set data. \<bar>nearest_loop ts 0 ?xs - ts\<bar> \<le> \<bar>start_time d - ts\<bar>"
    by (auto intro!: nearest_loop_le)
  have least: "\<forall>d\<in>set data. \<bar>start_time d - ts\<bar> = \<bar>nearest_loop ts 0 ?xs - ts\<bar> \<longrightarrow>
      nearest_loop ts 0 ?xs \<le> start_time d"
  proof (intro ballI impI)
    fix d assume d: "d \<in> set data" and tie: "\<bar>start_time d - ts\<bar> = \<bar>nearest_loop ts 0 ?xs - ts\<bar>"
    from d have "start_time d \<in> set ?xs" by simp
    moreover have "sorted ?xs" by simp
    moreover from tie less have "\<bar>start_time d - ts\<bar> < \<bar>0 - ts\<bar>" by simp
    ultimately show "nearest_loop ts 0 ?xs \<le> start_time d" using tie
      by (intro nearest_loop_least)
  qed
  from True mem le least show ?thesis unfolding find_nearest_time_def using set by simp
next
  case False
  then have "\<forall>x\<in>set (sort (map start_time data)). \<bar>0 - ts\<bar> \<le> \<bar>x - ts\<bar>" by auto
  then have "nearest_loop ts 0 (sort (map start_time data)) = 0" by (rule nearest_loop_keep)
  with False show ?thesis by (simp add: find_nearest_time_def)
qed

theorem find_nearest_time_first_minimiser_witness:
  "(\<exists>d\<in>set [\<lparr>start_time = 2000\<rparr>, \<lparr>start_time = 1000\<rparr>]. \<bar>start_time d - 1500\<bar> < \<bar>0 - (1500::int)\<bar>) \<and>
   find_nearest_time 1500 [\<lparr>start_time = 2000\<rparr>, \<lparr>start_time = 1000\<rparr>] = 1000 \<and>
   find_nearest_time 7 [\<lparr>start_time = 1000\<rparr>] = 0"
  using find_nearest_time_first_minimiser [of "[\<lparr>start_time = 2000\<rparr>, \<lparr>start_time = 1000\<rparr>]" 1500]
    find_nearest_time_first_minimiser [of "[\<lparr>start_time = 1000\<rparr>]" 7]
  by (simp add: find_nearest_time_def)

text \<open>
  Claim C4, as stated, fails: target 1 and the single timestamp 1000 are strictly
  positive, and the result is the sentinel 0, which is no timestamp of the data.
\<close>

theorem find_nearest_time_sentinel_counterexample:
  "(0::int) < 1 \<and> [\<lparr>start_time = 1000\<rparr>] \<noteq> [] \<and> (0::int) < 1000 \<and>
   find_nearest_time 1 [\<lparr>start_time = 1000\<rparr>] \<notin> start_time ` set [\<lparr>start_time = 1000\<rparr>]"
  by (simp add: find_nearest_time_def)

text \<open>
  Claim C4, amended. For a strictly positive target and strictly positive timestamps
  the result is a timestamp of the data if and only if some timestamp is smaller than
  twice the target; otherwise it is the sentinel 0.
\<close>

theorem find_nearest_time_positive:
  assumes "0 < ts" and "data \<noteq> []" and "\<forall>d\<in>set data. 0 < start_time d"
  shows "if \<exists>d\<in>set data. start_time d < 2 * ts
         then find_nearest_time ts data \<in> start_time ` set data
         else find_nearest_time ts data = 0 \<and> find_nearest_time ts data \<notin> start_time ` set data"
proof -
  let ?xs = "sort (map start_time data)"
  have closer: "\<bar>x - ts\<bar> < \<bar>0 - ts\<bar> \<longleftrightarrow> x < 2 * ts" if "x \<in> set ?xs" for x
  proof -
    from that assms(3) have "0 < x" by auto
    with assms(1) show ?thesis by auto
  qed
  show ?thesis
  proof (cases "\<exists>d\<in>set data. start_time d < 2 * ts")
    case True
    then obtain d where d: "d \<in> set data" "start_time d < 2 * ts" by blast
    then have "start_time d \<in> set ?xs" by simp
    with d(2) closer have "\<exists>x\<in>set ?xs. \<bar>x - ts\<bar> < \<bar>0 - ts\<bar>" by blast
    from nearest_loop_closer [OF this] have "nearest_loop ts 0 ?xs \<in> set ?xs" by simp
    with True show ?thesis by (simp add: find_nearest_time_def)
  next
    case False
    then have "\<forall>x\<in>set ?xs. \<not> x < 2 * ts" by auto
    with closer have "\<forall>x\<in>set ?xs. \<bar>0 - ts\<bar> \<le> \<bar>x - ts\<bar>" by (meson not_less)
    then have zero: "nearest_loop ts 0 ?xs = 0" by (rule nearest_loop_keep)
    have "0 \<notin> start_time ` set data" using assms(3) by auto
    with False zero show ?thesis by (simp add: find_nearest_time_def)
  qed
qed

theorem find_nearest_time_positive_witness:
  "(0::int) < 1400 \<and> [\<lparr>start_time = 1000\<rparr>, \<lparr>start_time = 2000\<rparr>] \<noteq> [] \<and>
   0 < start_time \<lparr>start_time = 1000\<rparr> \<and> 0 < start_time \<lparr>start_time = 2000\<rparr> \<and>
   find_nearest_time 1400 [\<lparr>start_time = 1000\<rparr>, \<lparr>start_time = 2000\<rparr>]
     \<in> start_time ` set [\<lparr>start_time = 1000\<rparr>, \<lparr>start_time = 2000\<rparr>]"
proof -
  have a: "(0::int) < 1400" by simp
  have b: "[\<lparr>start_time = 1000\<rparr>, \<lparr>start_time = 2000\<rparr>] \<noteq> []" by simp
  have c: "\<forall>d\<in>set [\<lparr>start_time = 1000\<rparr>, \<lparr>start_time = 2000\<rparr>]. 0 < start_time d" by simp
  from find_nearest_time_positive [OF a b c] a b c show ?thesis by simp
qed

section \<open>The keys of the merged data\<close>

lemma has_key_iff: "has_key m k \<longleftrightarrow> k \<in> fst ` set m"
  by (simp add: has_key_def)

lemma keys_location_step:
  "fst ` set (location_step rt entry m) = insert (start_time entry) (fst ` set m)"
  by (auto simp: location_step_def has_key_iff dom_update)

lemma keys_location_loop:
  "fst ` set (location_loop rt locationdata m) = fst ` set m \<union> start_time ` set locationdata"
  by (induction locationdata arbitrary: m) (auto simp: keys_location_step)

lemma keys_key_step:
  "fst ` set (key_step t ts entry k m) =
     (if get_truthy (entry_get entry k) then insert ts (fst ` set m) else fst ` set m)"
proof (cases "entry_get entry k")
  case None
  then show ?thesis by (simp add: key_step_def)
next
  case (Some v)
  show ?thesis
  proof (cases "truthy v")
    case False
    with Some show ?thesis by (simp add: key_step_def)
  next
    case True
    define m1 where "m1 = (if has_key m ts then m else AList.update ts (obs_set k v (time_only t)) m)"
    have m1: "fst ` set m1 = insert ts (fst ` set m)"
      by (auto simp: m1_def has_key_iff dom_update)
    then have "ts \<in> fst ` set m1" by simp
    then have "fst ` set (case map_of m1 ts of None \<Rightarrow> m1
            | Some ob \<Rightarrow> if obs_get ob k = None then AList.update ts (obs_set k v ob) m1 else m1)
          = fst ` set m1"
      by (cases "map_of m1 ts") (auto simp: dom_update)
    moreover have "key_step t ts entry k m = (case map_of m1 ts of None \<Rightarrow> m1
            | Some ob \<Rightarrow> if obs_get ob k = None then AList.update ts (obs_set k v ob) m1 else m1)"
      unfolding m1_def using Some True by (simp add: key_step_def Let_def)
    ultimately show ?thesis using Some True m1 by simp
  qed
qed

lemma keys_fold_key_step:
  "fst ` set (fold (key_step t ts entry) ks m) =
     (if list_ex (\<lambda>k. get_truthy (entry_get entry k)) ks then insert ts (fst ` set m)
      else fst ` set m)"
  by (induction ks arbitrary: m) (auto simp: keys_key_step)

lemma entry_get_snap [simp]:
  "entry_get (entry\<lparr>start_time := t\<rparr>) k = entry_get entry k"
  by (cases k) simp_all

lemma has_data_snap [simp]: "has_data (entry\<lparr>start_time := t\<rparr>) = has_data entry"
  by (simp add: has_data_def)

lemma coerce_heart_rate_snap:
  "coerce_heart_rate (entry\<lparr>start_time := t\<rparr>) = (coerce_heart_rate entry)\<lparr>start_time := t\<rparr>"
  by (simp add: coerce_heart_rate_def split: option.splits)

lemma start_time_coerce [simp]: "start_time (coerce_heart_rate entry) = start_time entry"
  by (simp add: coerce_heart_rate_def split: option.splits)

lemma has_data_updated_entry:
  "has_data (updated_entry locationdata m entry) = has_data (coerce_heart_rate entry)"
  by (simp add: updated_entry_def coerce_heart_rate_snap)


lemma keys_live_step:
  "fst ` set (fst (live_step rt locationdata entry m)) =
     (if has_data (coerce_heart_rate entry)
      then insert (effective_time locationdata m entry) (fst ` set m) else fst ` set m)"
  using has_data_updated_entry [of locationdata m entry]
  by (simp add: live_step_def Let_def keys_fold_key_step has_data_def)

lemma snd_live_step:
  "snd (live_step rt locationdata entry m) = updated_entry locationdata m entry"
  by (simp add: live_step_def Let_def)

lemma fst_live_loop_Cons:
  "fst (live_loop rt locationdata (entry # rest) m) =
     fst (live_loop rt locationdata rest (fst (live_step rt locationdata entry m)))"
  by (simp add: split_beta Let_def)

lemma snd_live_loop_Cons:
  "snd (live_loop rt locationdata (entry # rest) m) =
     updated_entry locationdata m entry #
     snd (live_loop rt locationdata rest (fst (live_step rt locationdata entry m)))"
  by (simp add: split_beta Let_def snd_live_step)

lemma effective_time_range:
  assumes "locationdata \<noteq> []"
  shows "effective_time locationdata m entry \<in> fst ` set m \<union> insert 0 (start_time ` set locationdata)"
proof (cases "has_key m (start_time entry)")
  case True
  then show ?thesis by (simp add: effective_time_def has_key_iff)
next
  case False
  have "nearest_loop (start_time entry) 0 (sort (map start_time locationdata))
          \<in> insert 0 (set (sort (map start_time locationdata)))"
    by (rule nearest_loop_mem)
  with False assms show ?thesis by (auto simp: effective_time_def find_nearest_time_def)
qed

lemma keys_live_loop_subset:
  assumes "locationdata \<noteq> []"
    and "fst ` set m \<subseteq> insert 0 (start_time ` set locationdata)"
  shows "fst ` set (fst (live_loop rt locationdata livedata m))
           \<subseteq> insert 0 (start_time ` set locationdata)"
  using assms(2)
proof (induction livedata arbitrary: m)
  case Nil
  then show ?case by simp
next
  case (Cons entry rest)
  have "fst ` set (fst (live_step rt locationdata entry m))
          \<subseteq> insert 0 (start_time ` set locationdata)"
    using Cons.prems effective_time_range [OF assms(1), of m entry]
    by (auto simp: keys_live_step)
  from Cons.IH [OF this] show ?case by (simp only: fst_live_loop_Cons)
qed

lemma map_fst_forward_fill: "map fst (forward_fill hr m) = map fst m"
  by (induction hr m rule: forward_fill.induct) auto

lemma keys_collected:
  "fst ` set (collected rt locationdata livedata) =
     fst ` set (fst (live_loop rt locationdata livedata (location_loop rt locationdata [])))"
  by (simp add: collected_def)

lemma keys_merge:
  "fst ` set (fst (merge_location_and_live_data rt locationdata livedata)) =
     fst ` set (fst (live_loop rt locationdata livedata (location_loop rt locationdata [])))"
proof -
  have "fst ` set (forward_fill (PInt 0) (collected rt locationdata livedata))
          = set (map fst (forward_fill (PInt 0) (collected rt locationdata livedata)))"
    by simp
  also have "\<dots> = fst ` set (collected rt locationdata livedata)"
    by (simp only: map_fst_forward_fill set_map)
  finally show ?thesis by (simp add: merge_location_and_live_data_def keys_collected)
qed

text \<open>
  Claim C10. With location data, every key of the merged data is the timestamp of a
  positional sample or the sentinel 0 of \<^verbatim>\<open>find_nearest_time\<close>.
\<close>

theorem merged_keys_from_locations:
  assumes "locationdata \<noteq> []"
  shows "fst ` set (fst (merge_location_and_live_data rt locationdata livedata))
           \<subseteq> insert 0 (start_time ` set locationdata)"
proof -
  have "fst ` set (location_loop rt locationdata []) \<subseteq> insert 0 (start_time ` set locationdata)"
    by (auto simp: keys_location_loop)
  from keys_live_loop_subset [OF assms this] show ?thesis by (simp only: keys_merge)
qed

theorem merged_keys_from_locations_witness:
  "[\<lparr>start_time = 1000, location.latitude = PInt 10, location.longitude = PInt 20,
      location.altitude = None\<rparr>,
    \<lparr>start_time = 2000, location.latitude = PInt 11, location.longitude = PInt 21,
      location.altitude = None\<rparr>] \<noteq> [] \<and>
   fst ` set (fst (merge_location_and_live_data decimal_builtins
     [\<lparr>start_time = 1000, location.latitude = PInt 10, location.longitude = PInt 20,
        location.altitude = None\<rparr>,
      \<lparr>start_time = 2000, location.latitude = PInt 11, location.longitude = PInt 21,
        location.altitude = None\<rparr>]
     [\<lparr>start_time = 1400, live.distance = None, live.cadence = None,
        live.heart_rate = Some (PInt 120), live.speed = None\<rparr>,
      \<lparr>start_time = 1, live.distance = None, live.cadence = None,
        live.heart_rate = Some (PInt 80), live.speed = None\<rparr>]))
   \<subseteq> {0, 1000, 2000}"
proof -
  let ?loc = "[\<lparr>start_time = 1000, location.latitude = PInt 10, location.longitude = PInt 20,
      location.altitude = None\<rparr>,
    \<lparr>start_time = 2000, location.latitude = PInt 11, location.longitude = PInt 21,
      location.altitude = None\<rparr>]"
  have h: "?loc \<noteq> []" by simp
  from merged_keys_from_locations [OF h] show ?thesis by simp
qed

lemma effective_time_no_locations [simp]: "effective_time [] m entry = start_time entry"
  by (simp add: effective_time_def)

lemma updated_entry_no_locations [simp]: "updated_entry [] m entry = coerce_heart_rate entry"
  by (simp add: updated_entry_def)

lemma keys_live_loop_no_locations:
  "fst ` set (fst (live_loop rt [] livedata m)) =
     fst ` set m \<union> start_time ` {e \<in> set livedata. has_data (coerce_heart_rate e)}"
proof (induction livedata arbitrary: m)
  case Nil
  then show ?case by simp
next
  case (Cons entry rest)
  show ?case
    unfolding fst_live_loop_Cons Cons.IH keys_live_step by auto
qed

lemma snd_live_loop_no_locations:
  "snd (live_loop rt [] livedata m) = map coerce_heart_rate livedata"
proof (induction livedata arbitrary: m)
  case Nil
  then show ?case by simp
next
  case (Cons entry rest)
  show ?case unfolding snd_live_loop_Cons Cons.IH by simp
qed

text \<open>
  Claim C7, as stated, fails. A live sample with the heart rate 0.5 and nothing else
  has a truthy value, but \<^verbatim>\<open>int(0.5)\<close> is 0: the loop finds no truthy value in the
  coerced sample and creates no key for its timestamp.
\<close>

theorem truthy_sample_without_key_counterexample:
  "has_data \<lparr>start_time = 100, live.distance = None, live.cadence = None,
      live.heart_rate = Some (PFloat (1 / 2)), live.speed = None\<rparr> \<and>
   100 \<notin> fst ` set (fst (merge_location_and_live_data decimal_builtins []
      [\<lparr>start_time = 100, live.distance = None, live.cadence = None,
         live.heart_rate = Some (PFloat (1 / 2)), live.speed = None\<rparr>]))"
proof -
  let ?s = "\<lparr>start_time = 100, live.distance = None, live.cadence = None,
      live.heart_rate = Some (PFloat (1 / 2)), live.speed = None\<rparr>"
  have raw: "has_data ?s"
    by (simp add: has_data_def live_keys_def)
  have "py_int (PFloat (1 / 2)) = 0" by code_simp
  then have coerced: "\<not> has_data (coerce_heart_rate ?s)"
    by (simp add: has_data_def live_keys_def coerce_heart_rate_def del: py_int.simps)
  have "fst ` set (fst (merge_location_and_live_data decimal_builtins [] [?s])) = {}"
    unfolding keys_merge keys_live_loop_no_locations using coerced by simp
  with raw show ?thesis by simp
qed

text \<open>
  Claim C7, amended. Without location data the keys of the merged data are the
  timestamps of the live samples that have a truthy value under one of the four keys
  once the heart rate is coerced to an integer, as the loop does before it looks at
  the values; the merge leaves the timestamp of every live sample as it was.
\<close>

theorem no_snapping_without_locations:
  "fst ` set (fst (merge_location_and_live_data rt [] livedata)) =
     set (map start_time (filter (\<lambda>e. has_data (coerce_heart_rate e)) livedata)) \<and>
   map start_time (snd (merge_location_and_live_data rt [] livedata)) = map start_time livedata"
proof -
  have "map start_time (map coerce_heart_rate livedata) = map start_time livedata"
    by (induction livedata) simp_all
  moreover have "fst ` set (fst (merge_location_and_live_data rt [] livedata)) =
      start_time ` {e \<in> set livedata. has_data (coerce_heart_rate e)}"
    unfolding keys_merge keys_live_loop_no_locations by simp
  ultimately show ?thesis
    by (simp add: merge_location_and_live_data_def snd_live_loop_no_locations)
qed

theorem no_snapping_without_locations_witness:
  "fst ` set (fst (merge_location_and_live_data decimal_builtins []
      [\<lparr>start_time = 1400, live.distance = None, live.cadence = None,
        live.heart_rate = Some (PFloat (241 / 2)), live.speed = None\<rparr>,
       \<lparr>start_time = 1500, live.distance = None, live.cadence = None,
        live.heart_rate = None, live.speed = None\<rparr>]))
     = {1400} \<and>
   map start_time (snd (merge_location_and_live_data decimal_builtins []
      [\<lparr>start_time = 1400, live.distance = None, live.cadence = None,
        live.heart_rate = Some (PFloat (241 / 2)), live.speed = None\<rparr>,
       \<lparr>start_time = 1500, live.distance = None, live.cadence = None,
        live.heart_rate = None, live.speed = None\<rparr>]))
     = [1400, 1500]"
proof -
  let ?a = "\<lparr>start_time = 1400, live.distance = None, live.cadence = None,
             live.heart_rate = Some (PFloat (241 / 2)), live.speed = None\<rparr>"
  let ?b = "\<lparr>start_time = 1500, live.distance = None, live.cadence = None,
             live.heart_rate = None, live.speed = None\<rparr>"
  have a: "has_data (coerce_heart_rate ?a)"
    by code_simp
  have b: "\<not> has_data (coerce_heart_rate ?b)"
    by code_simp
  from no_snapping_without_locations [of decimal_builtins "[?a, ?b]"] a b show ?thesis
    by simp
qed

section \<open>The heart rates of the merged data\<close>

lemma set_update_cases: "x \<in> set (AList.update k v al) \<Longrightarrow> x = (k, v) \<or> x \<in> set al"
  by (induction al) (auto split: if_splits)

lemma hr_ok_update:
  "hr_ok m \<Longrightarrow> observation.heart_rate ob = None \<or> get_truthy (observation.heart_rate ob) \<Longrightarrow>
   hr_ok (AList.update k ob m)"
  unfolding hr_ok_def using set_update_cases by fastforce

lemma hr_ok_location_step: "hr_ok m \<Longrightarrow> hr_ok (location_step rt entry m)"
  by (simp add: location_step_def hr_ok_update location_observation_def)

lemma hr_ok_location_loop: "hr_ok m \<Longrightarrow> hr_ok (location_loop rt locationdata m)"
  by (induction locationdata arbitrary: m) (simp_all add: hr_ok_location_step)

lemma heart_rate_obs_set:
  "truthy v \<Longrightarrow> observation.heart_rate ob = None \<or> get_truthy (observation.heart_rate ob) \<Longrightarrow>
   observation.heart_rate (obs_set k v ob) = None \<or> get_truthy (observation.heart_rate (obs_set k v ob))"
  by (cases k) auto

lemma hr_ok_lookup:
  "hr_ok m \<Longrightarrow> map_of m ts = Some ob \<Longrightarrow>
   observation.heart_rate ob = None \<or> get_truthy (observation.heart_rate ob)"
  unfolding hr_ok_def by (metis map_of_SomeD snd_conv)

lemma hr_ok_key_step: "hr_ok m \<Longrightarrow> hr_ok (key_step t ts entry k m)"
proof (cases "entry_get entry k")
  case None
  assume "hr_ok m" with None show ?thesis by (simp add: key_step_def)
next
  case (Some v)
  assume ok: "hr_ok m"
  show ?thesis
  proof (cases "truthy v")
    case False
    with Some ok show ?thesis by (simp add: key_step_def)
  next
    case True
    define m1 where "m1 = (if has_key m ts then m else AList.update ts (obs_set k v (time_only t)) m)"
    have "observation.heart_rate (obs_set k v (time_only t)) = None \<or>
          get_truthy (observation.heart_rate (obs_set k v (time_only t)))"
      using True by (intro heart_rate_obs_set) (simp_all add: time_only_def)
    with ok have m1: "hr_ok m1" by (simp add: m1_def hr_ok_update)
    have "hr_ok (case map_of m1 ts of None \<Rightarrow> m1
            | Some ob \<Rightarrow> if obs_get ob k = None then AList.update ts (obs_set k v ob) m1 else m1)"
    proof (cases "map_of m1 ts")
      case None
      with m1 show ?thesis by simp
    next
      case (Some ob)
      from hr_ok_lookup [OF m1 Some] True
      have "observation.heart_rate (obs_set k v ob) = None \<or>
            get_truthy (observation.heart_rate (obs_set k v ob))"
        by (intro heart_rate_obs_set)
      with m1 Some show ?thesis by (simp add: hr_ok_update)
    qed
    moreover have "key_step t ts entry k m = (case map_of m1 ts of None \<Rightarrow> m1
            | Some ob \<Rightarrow> if obs_get ob k = None then AList.update ts (obs_set k v ob) m1 else m1)"
      unfolding m1_def using Some True by (simp add: key_step_def Let_def)
    ultimately show ?thesis by simp
  qed
qed

lemma hr_ok_fold_key_step: "hr_ok m \<Longrightarrow> hr_ok (fold (key_step t ts entry) ks m)"
  by (induction ks arbitrary: m) (simp_all add: hr_ok_key_step)

lemma hr_ok_live_step: "hr_ok m \<Longrightarrow> hr_ok (fst (live_step rt locationdata entry m))"
  by (simp add: live_step_def Let_def hr_ok_fold_key_step)

lemma hr_ok_live_loop: "hr_ok m \<Longrightarrow> hr_ok (fst (live_loop rt locationdata livedata m))"
proof (induction livedata arbitrary: m)
  case Nil
  then show ?case by simp
next
  case (Cons entry rest)
  from Cons.IH [OF hr_ok_live_step [OF Cons.prems]] show ?case
    by (simp only: fst_live_loop_Cons)
qed

lemma hr_ok_collected: "hr_ok (collected rt locationdata livedata)"
proof -
  have "hr_ok []" by (simp add: hr_ok_def)
  then have "hr_ok (fst (live_loop rt locationdata livedata (location_loop rt locationdata [])))"
    by (intro hr_ok_live_loop hr_ok_location_loop)
  then show ?thesis by (simp add: collected_def hr_ok_def)
qed

lemma distinct_location_step:
  "distinct (map fst m) \<Longrightarrow> distinct (map fst (location_step rt entry m))"
  by (simp add: location_step_def distinct_update)

lemma distinct_location_loop:
  "distinct (map fst m) \<Longrightarrow> distinct (map fst (location_loop rt locationdata m))"
  by (induction locationdata arbitrary: m) (simp_all add: distinct_location_step)

lemma distinct_key_step:
  "distinct (map fst m) \<Longrightarrow> distinct (map fst (key_step t ts entry k m))"
  by (auto simp: key_step_def Let_def distinct_update split: option.splits)

lemma distinct_fold_key_step:
  "distinct (map fst m) \<Longrightarrow> distinct (map fst (fold (key_step t ts entry) ks m))"
  by (induction ks arbitrary: m) (simp_all add: distinct_key_step)

lemma distinct_live_step:
  "distinct (map fst m) \<Longrightarrow> distinct (map fst (fst (live_step rt locationdata entry m)))"
  by (simp add: live_step_def Let_def distinct_fold_key_step)

lemma distinct_live_loop:
  "distinct (map fst m) \<Longrightarrow> distinct (map fst (fst (live_loop rt locationdata livedata m)))"
proof (induction livedata arbitrary: m)
  case Nil
  then show ?case by simp
next
  case (Cons entry rest)
  from Cons.IH [OF distinct_live_step [OF Cons.prems]] show ?case
    by (simp only: fst_live_loop_Cons)
qed

lemma distinct_sort_key_fst:
  "distinct (map fst m) \<Longrightarrow> distinct (map fst (sort_key fst m))"
  by (simp add: distinct_map)

lemma distinct_collected: "distinct (map fst (collected rt locationdata livedata))"
  unfolding collected_def
  by (intro distinct_sort_key_fst distinct_live_loop distinct_location_loop) simp

lemma sorted_collected: "sorted (map fst (collected rt locationdata livedata))"
  by (simp add: collected_def sorted_sort_key)

lemma last_reading_snoc:
  "last_reading (obs @ [ob]) =
     (case observation.heart_rate ob of None \<Rightarrow> last_reading obs | Some h \<Rightarrow> h)"
  by (simp add: last_reading_def split: option.splits)

lemma length_forward_fill: "length (forward_fill hr m) = length m"
  by (induction hr m rule: forward_fill.induct) auto

lemma forward_fill_nth:
  "hr_ok m \<Longrightarrow> hr = last_reading pre \<Longrightarrow> i < length m \<Longrightarrow>
   forward_fill hr m ! i =
     (fst (m ! i),
      case observation.heart_rate (snd (m ! i)) of
        None \<Rightarrow> (snd (m ! i))\<lparr>observation.heart_rate := Some (last_reading (pre @ map snd (take i m)))\<rparr>
      | Some h \<Rightarrow> snd (m ! i))"
proof (induction m arbitrary: hr pre i)
  case Nil
  then show ?case by simp
next
  case (Cons x rest)
  obtain d ob where x: "x = (d, ob)" by (cases x)
  from Cons.prems(1) have ok: "hr_ok rest"
    and here: "observation.heart_rate ob = None \<or> get_truthy (observation.heart_rate ob)"
    by (simp_all add: hr_ok_def x)
  let ?hr = "if get_truthy (observation.heart_rate ob) then the (observation.heart_rate ob) else hr"
  have next_hr: "?hr = last_reading (pre @ [ob])"
    using here Cons.prems(2) by (cases "observation.heart_rate ob") (auto simp: last_reading_snoc)
  show ?case
  proof (cases i)
    case 0
    with here Cons.prems(2) show ?thesis
      by (cases "observation.heart_rate ob") (auto simp: x)
  next
    case (Suc j)
    with Cons.prems(3) have j: "j < length rest" by simp
    have a: "(x # rest) ! i = rest ! j" by (simp add: Suc)
    have b: "pre @ map snd (take i (x # rest)) = (pre @ [ob]) @ map snd (take j rest)"
      by (simp add: Suc x)
    have c: "forward_fill hr (x # rest) ! i = forward_fill ?hr rest ! j"
      by (simp add: x Suc)
    show ?thesis unfolding a b c by (rule Cons.IH [OF ok next_hr j])
  qed
qed

text \<open>
  Claim C2. The merged data come out sorted by their keys, which are distinct, and the
  last loop changes nothing but heart rates: the observation at each position has the
  heart rate it had before the loop if it had one (a reading of a live sample), and
  otherwise the reading of the closest earlier observation that had one, or 0 if there
  is none.
\<close>

theorem forward_filled_heart_rate:
  "length (fst (merge_location_and_live_data rt locationdata livedata)) =
     length (collected rt locationdata livedata) \<and>
   sorted (map fst (fst (merge_location_and_live_data rt locationdata livedata))) \<and>
   distinct (map fst (fst (merge_location_and_live_data rt locationdata livedata))) \<and>
   (\<forall>i < length (collected rt locationdata livedata).
      fst (fst (merge_location_and_live_data rt locationdata livedata) ! i) =
        fst (collected rt locationdata livedata ! i) \<and>
      observation.heart_rate (snd (fst (merge_location_and_live_data rt locationdata livedata) ! i)) =
        Some (expected_heart_rate (map snd (collected rt locationdata livedata)) i))"
proof -
  let ?pre = "collected rt locationdata livedata"
  have post: "fst (merge_location_and_live_data rt locationdata livedata) = forward_fill (PInt 0) ?pre"
    by (simp add: merge_location_and_live_data_def)
  have zero: "PInt 0 = last_reading []" by (simp add: last_reading_def)
  have "fst (forward_fill (PInt 0) ?pre ! i) = fst (?pre ! i) \<and>
        observation.heart_rate (snd (forward_fill (PInt 0) ?pre ! i)) =
          Some (expected_heart_rate (map snd ?pre) i)" if "i < length ?pre" for i
    using forward_fill_nth [OF hr_ok_collected zero that] that
    by (simp add: expected_heart_rate_def take_map split: option.splits)
  then show ?thesis
    unfolding post
    by (simp add: length_forward_fill map_fst_forward_fill sorted_collected distinct_collected)
qed

lemmas merge_eval =
  collected_def location_step_def has_key_def live_step_def effective_time_def
  updated_entry_def coerce_heart_rate_def find_nearest_time_def key_step_def live_keys_def
  location_observation_def time_only_def Let_def

lemma example_collected:
  "collected rt
     [\<lparr>start_time = 1000, location.latitude = PInt 10, location.longitude = PInt 20,
        location.altitude = None\<rparr>,
      \<lparr>start_time = 2000, location.latitude = PInt 11, location.longitude = PInt 21,
        location.altitude = None\<rparr>]
     [\<lparr>start_time = 1400, live.distance = None, live.cadence = None,
        live.heart_rate = Some (PInt 120), live.speed = None\<rparr>] =
   [(1000, \<lparr>time = utc_time_string rt 1000, latitude = Some (PInt 10), longitude = Some (PInt 20),
       altitude = None, distance = None, cadence = None, heart_rate = Some (PInt 120), speed = None\<rparr>),
    (2000, \<lparr>time = utc_time_string rt 2000, latitude = Some (PInt 11), longitude = Some (PInt 21),
       altitude = None, distance = None, cadence = None, heart_rate = None, speed = None\<rparr>)]"
  by (simp add: merge_eval)

theorem forward_filled_heart_rate_witness:
  "fst (fst (merge_location_and_live_data decimal_builtins
     [\<lparr>start_time = 1000, location.latitude = PInt 10, location.longitude = PInt 20,
        location.altitude = None\<rparr>,
      \<lparr>start_time = 2000, location.latitude = PInt 11, location.longitude = PInt 21,
        location.altitude = None\<rparr>]
     [\<lparr>start_time = 1400, live.distance = None, live.cadence = None,
        live.heart_rate = Some (PInt 120), live.speed = None\<rparr>]) ! 1) = 2000 \<and>
   observation.heart_rate (snd (fst (merge_location_and_live_data decimal_builtins
     [\<lparr>start_time = 1000, location.latitude = PInt 10, location.longitude = PInt 20,
        location.altitude = None\<rparr>,
      \<lparr>start_time = 2000, location.latitude = PInt 11, location.longitude = PInt 21,
        location.altitude = None\<rparr>]
     [\<lparr>start_time = 1400, live.distance = None, live.cadence = None,
        live.heart_rate = Some (PInt 120), live.speed = None\<rparr>]) ! 1)) = Some (PInt 120)"
  using forward_filled_heart_rate [of decimal_builtins
     "[\<lparr>start_time = 1000, location.latitude = PInt 10, location.longitude = PInt 20,
        location.altitude = None\<rparr>,
      \<lparr>start_time = 2000, location.latitude = PInt 11, location.longitude = PInt 21,
        location.altitude = None\<rparr>]"
     "[\<lparr>start_time = 1400, live.distance = None, live.cadence = None,
        live.heart_rate = Some (PInt 120), live.speed = None\<rparr>]"]
  by (simp add: example_collected expected_heart_rate_def last_reading_def)

section \<open>Stored values are kept\<close>

lemma retains_refl: "retains ob ob"
  by (simp add: retains_def keeps_def)

lemma keeps_trans: "keeps a b \<Longrightarrow> keeps b c \<Longrightarrow> keeps a c"
  by (auto simp: keeps_def)

lemma retains_trans: "retains a b \<Longrightarrow> retains b c \<Longrightarrow> retains a c"
  unfolding retains_def by (auto intro: keeps_trans)

lemma retains_obs_set: "obs_get ob k = None \<Longrightarrow> retains ob (obs_set k v ob)"
  by (cases k) (simp_all add: retains_def keeps_def)

lemma extends_iff:
  "extends m m' \<longleftrightarrow>
     (\<forall>k ob. map_of m k = Some ob \<longrightarrow> (\<exists>ob'. map_of m' k = Some ob' \<and> retains ob ob'))"
proof
  assume ext: "extends m m'"
  show "\<forall>k ob. map_of m k = Some ob \<longrightarrow> (\<exists>ob'. map_of m' k = Some ob' \<and> retains ob ob')"
  proof (intro allI impI)
    fix k ob assume look: "map_of m k = Some ob"
    then have "k \<in> set (map fst m)" by (metis map_of_eq_None_iff option.distinct(1) set_map)
    with ext have "case map_of m k of None \<Rightarrow> True
        | Some ob \<Rightarrow> (case map_of m' k of None \<Rightarrow> False | Some ob' \<Rightarrow> retains ob ob')"
      unfolding extends_def list_all_iff by blast
    with look show "\<exists>ob'. map_of m' k = Some ob' \<and> retains ob ob'"
      by (cases "map_of m' k") simp_all
  qed
next
  assume all: "\<forall>k ob. map_of m k = Some ob \<longrightarrow> (\<exists>ob'. map_of m' k = Some ob' \<and> retains ob ob')"
  show "extends m m'"
    unfolding extends_def list_all_iff
  proof
    fix k assume "k \<in> set (map fst m)"
    show "case map_of m k of None \<Rightarrow> True
        | Some ob \<Rightarrow> (case map_of m' k of None \<Rightarrow> False | Some ob' \<Rightarrow> retains ob ob')"
    proof (cases "map_of m k")
      case None
      then show ?thesis by simp
    next
      case (Some ob)
      with all obtain ob' where "map_of m' k = Some ob'" "retains ob ob'" by blast
      with Some show ?thesis by simp
    qed
  qed
qed

lemma extends_refl: "extends m m"
  by (simp add: extends_iff retains_refl)

lemma extends_trans:
  assumes "extends a b" and "extends b c"
  shows "extends a c"
  unfolding extends_iff
proof (intro allI impI)
  fix k ob assume "map_of a k = Some ob"
  with assms(1) obtain ob' where b: "map_of b k = Some ob'" "retains ob ob'"
    unfolding extends_iff by blast
  with assms(2) obtain ob'' where c: "map_of c k = Some ob''" "retains ob' ob''"
    unfolding extends_iff by blast
  from b(2) c(2) have "retains ob ob''" by (rule retains_trans)
  with c(1) show "\<exists>ob'. map_of c k = Some ob' \<and> retains ob ob'" by blast
qed

lemma extends_same_map: "map_of m' = map_of m \<Longrightarrow> extends m m'"
  by (simp add: extends_iff retains_refl)

lemma extends_update_new:
  assumes "\<not> has_key m k"
  shows "extends m (AList.update k v m)"
  unfolding extends_iff
proof (intro allI impI)
  fix k' ob assume look: "map_of m k' = Some ob"
  from assms have "map_of m k = None" by (simp add: has_key_def map_of_eq_None_iff)
  with look have "k' \<noteq> k" by auto
  with look have "map_of (AList.update k v m) k' = Some ob" by (simp add: update_conv')
  then show "\<exists>ob'. map_of (AList.update k v m) k' = Some ob' \<and> retains ob ob'"
    by (simp add: retains_refl)
qed

lemma extends_update_retains:
  assumes "map_of m k = Some ob" and "retains ob ob'"
  shows "extends m (AList.update k ob' m)"
  unfolding extends_iff
proof (intro allI impI)
  fix k' x assume look: "map_of m k' = Some x"
  show "\<exists>y. map_of (AList.update k ob' m) k' = Some y \<and> retains x y"
  proof (cases "k' = k")
    case True
    with look assms show ?thesis by (simp add: update_conv')
  next
    case False
    with look show ?thesis by (simp add: update_conv' retains_refl)
  qed
qed

lemma extends_location_step: "extends m (location_step rt entry m)"
  by (simp add: location_step_def extends_refl extends_update_new)

lemma location_loop_append:
  "location_loop rt (xs @ ys) m = location_loop rt ys (location_loop rt xs m)"
  by (induction xs arbitrary: m) simp_all

lemma extends_location_loop: "extends m (location_loop rt locationdata m)"
proof (induction locationdata arbitrary: m)
  case Nil
  show ?case by (simp add: extends_refl)
next
  case (Cons entry rest)
  have "extends m (location_step rt entry m)" by (rule extends_location_step)
  moreover have "extends (location_step rt entry m) (location_loop rt rest (location_step rt entry m))"
    by (rule Cons.IH)
  ultimately have "extends m (location_loop rt rest (location_step rt entry m))"
    by (rule extends_trans)
  then show ?case by simp
qed

lemma key_step_kept:
  assumes "map_of m ts = Some ob" and "obs_get ob k \<noteq> None"
  shows "key_step t ts entry k m = m"
proof -
  from assms(1) have "has_key m ts"
    by (metis has_key_def map_of_eq_None_iff option.distinct(1) set_map)
  with assms show ?thesis
    by (cases "entry_get entry k") (auto simp: key_step_def Let_def)
qed

lemma extends_key_step: "extends m (key_step t ts entry k m)"
proof (cases "entry_get entry k")
  case None
  then show ?thesis by (simp add: key_step_def extends_refl)
next
  case (Some v)
  show ?thesis
  proof (cases "truthy v")
    case False
    with Some show ?thesis by (simp add: key_step_def extends_refl)
  next
    case True
    define m1 where "m1 = (if has_key m ts then m else AList.update ts (obs_set k v (time_only t)) m)"
    have first: "extends m m1"
      by (simp add: m1_def extends_refl extends_update_new)
    have second: "extends m1 (case map_of m1 ts of None \<Rightarrow> m1
            | Some ob \<Rightarrow> if obs_get ob k = None then AList.update ts (obs_set k v ob) m1 else m1)"
    proof (cases "map_of m1 ts")
      case None
      then show ?thesis by (simp add: extends_refl)
    next
      case look: (Some ob)
      show ?thesis
      proof (cases "obs_get ob k = None")
        case True
        then have "retains ob (obs_set k v ob)" by (rule retains_obs_set)
        with look have "extends m1 (AList.update ts (obs_set k v ob) m1)"
          by (rule extends_update_retains)
        with look True show ?thesis by simp
      next
        case False
        with look show ?thesis by (auto simp: extends_refl)
      qed
    qed
    have "key_step t ts entry k m = (case map_of m1 ts of None \<Rightarrow> m1
            | Some ob \<Rightarrow> if obs_get ob k = None then AList.update ts (obs_set k v ob) m1 else m1)"
      unfolding m1_def using Some True by (simp add: key_step_def Let_def)
    with extends_trans [OF first second] show ?thesis by simp
  qed
qed

lemma extends_fold_key_step: "extends m (fold (key_step t ts entry) ks m)"
proof (induction ks arbitrary: m)
  case Nil
  show ?case by (simp add: extends_refl)
next
  case (Cons k ks)
  have "extends m (key_step t ts entry k m)" by (rule extends_key_step)
  moreover have "extends (key_step t ts entry k m) (fold (key_step t ts entry) ks (key_step t ts entry k m))"
    by (rule Cons.IH)
  ultimately have "extends m (fold (key_step t ts entry) ks (key_step t ts entry k m))"
    by (rule extends_trans)
  then show ?case by simp
qed

lemma extends_live_step: "extends m (fst (live_step rt locationdata entry m))"
  by (simp add: live_step_def Let_def extends_fold_key_step)

lemma extends_live_loop: "extends m (fst (live_loop rt locationdata livedata m))"
proof (induction livedata arbitrary: m)
  case Nil
  show ?case by (simp add: extends_refl)
next
  case (Cons entry rest)
  from extends_live_step Cons.IH show ?case
    unfolding fst_live_loop_Cons by (rule extends_trans)
qed

lemma fst_live_loop_append:
  "fst (live_loop rt locationdata (xs @ ys) m) =
     fst (live_loop rt locationdata ys (fst (live_loop rt locationdata xs m)))"
proof (induction xs arbitrary: m)
  case Nil
  show ?case by simp
next
  case (Cons x xs)
  show ?case unfolding append_Cons fst_live_loop_Cons Cons.IH ..
qed

lemma map_of_sort_key_fst:
  "distinct (map fst m) \<Longrightarrow> map_of (sort_key fst m) = map_of m"
  by (intro map_of_inject_set [THEN iffD2]) (simp_all add: distinct_map)

lemma extends_forward_fill: "hr_ok m \<Longrightarrow> extends m (forward_fill hr m)"
  unfolding extends_iff
proof (intro allI impI)
  fix k ob
  assume "hr_ok m" and "map_of m k = Some ob"
  then show "\<exists>ob'. map_of (forward_fill hr m) k = Some ob' \<and> retains ob ob'"
  proof (induction hr m rule: forward_fill.induct)
    case (1 hr)
    then show ?case by simp
  next
    case (2 hr d x rest)
    from "2.prems"(1) have ok: "hr_ok rest"
      and here: "observation.heart_rate x = None \<or> get_truthy (observation.heart_rate x)"
      by (simp_all add: hr_ok_def)
    show ?case
    proof (cases "k = d")
      case True
      with "2.prems"(2) have "ob = x" by simp
      with True here show ?thesis by (auto simp: retains_def keeps_def)
    next
      case False
      with "2.prems"(2) have look: "map_of rest k = Some ob" by simp
      show ?thesis
      proof (cases "get_truthy (observation.heart_rate x)")
        case True
        from "2.IH"(1) [OF True ok look] True False show ?thesis by simp
      next
        case no: False
        from "2.IH"(2) [OF no ok look] no False show ?thesis by simp
      qed
    qed
  qed
qed

lemma extends_merge:
  "extends (fst (live_loop rt locationdata livedata (location_loop rt locationdata [])))
     (fst (merge_location_and_live_data rt locationdata livedata))"
proof -
  let ?m = "fst (live_loop rt locationdata livedata (location_loop rt locationdata []))"
  have "distinct (map fst ?m)"
    by (intro distinct_live_loop distinct_location_loop) simp
  then have "map_of (collected rt locationdata livedata) = map_of ?m"
    unfolding collected_def by (rule map_of_sort_key_fst)
  then have "extends ?m (collected rt locationdata livedata)" by (rule extends_same_map)
  moreover have "extends (collected rt locationdata livedata)
      (forward_fill (PInt 0) (collected rt locationdata livedata))"
    by (rule extends_forward_fill [OF hr_ok_collected])
  ultimately show ?thesis
    unfolding merge_location_and_live_data_def fst_conv by (rule extends_trans)
qed

lemma map_of_location_loop:
  "map_of (location_loop rt locationdata m) k =
     (case map_of m k of
        Some ob \<Rightarrow> Some ob
      | None \<Rightarrow> map_option (location_observation rt) (find (\<lambda>e. start_time e = k) locationdata))"
proof (induction locationdata arbitrary: m)
  case Nil
  show ?case by (simp split: option.splits)
next
  case (Cons entry rest)
  have none: "map_of m k = None \<longleftrightarrow> \<not> has_key m k" for k
    by (simp add: has_key_def map_of_eq_None_iff)
  show ?case
  proof (cases "has_key m (start_time entry)")
    case True
    then have step: "location_step rt entry m = m" by (simp add: location_step_def)
    from True none obtain ob where "map_of m (start_time entry) = Some ob" by fastforce
    then show ?thesis unfolding location_loop.simps step Cons.IH
      by (auto split: option.splits)
  next
    case False
    then have step: "location_step rt entry m =
        AList.update (start_time entry) (location_observation rt entry) m"
      by (simp add: location_step_def)
    from False none have "map_of m (start_time entry) = None" by simp
    then show ?thesis unfolding location_loop.simps step Cons.IH
      by (auto simp: update_conv' split: option.splits)
  qed
qed

text \<open>
  Claim C8. No step of the merge overwrites a value stored under a key of an
  observation. A round of the first loop keeps every stored value and leaves the data
  as they are when the timestamp is a key already, so that the observation of a
  timestamp comes from the first positional sample with it. A round of the loop over
  the keys of a live sample keeps every stored value and leaves the data as they are
  when the observation has the key already. What the first loop has stored after any
  number of positional samples, and what the second loop has stored after any number
  of live samples, is in the result of the merge.
\<close>

theorem stored_values_never_overwritten:
  "extends m (location_step rt entry m) \<and>
   (has_key m (start_time entry) \<longrightarrow> location_step rt entry m = m) \<and>
   map_of (location_loop rt locationdata []) ts =
     map_option (location_observation rt) (find (\<lambda>e. start_time e = ts) locationdata) \<and>
   extends m (key_step t ts sample k m) \<and>
   (map_of m ts = Some ob \<and> obs_get ob k \<noteq> None \<longrightarrow> key_step t ts sample k m = m) \<and>
   extends (location_loop rt (take i locationdata) [])
     (fst (merge_location_and_live_data rt locationdata livedata)) \<and>
   extends (fst (live_loop rt locationdata (take j livedata) (location_loop rt locationdata [])))
     (fst (merge_location_and_live_data rt locationdata livedata))"
proof -
  let ?seed = "location_loop rt locationdata []"
  let ?all = "fst (live_loop rt locationdata livedata ?seed)"
  let ?out = "fst (merge_location_and_live_data rt locationdata livedata)"
  have "?seed = location_loop rt (drop i locationdata) (location_loop rt (take i locationdata) [])"
    by (simp flip: location_loop_append)
  then have a: "extends (location_loop rt (take i locationdata) []) ?seed"
    by (simp add: extends_location_loop)
  have "?all = fst (live_loop rt locationdata (drop j livedata)
      (fst (live_loop rt locationdata (take j livedata) ?seed)))"
    by (simp flip: fst_live_loop_append)
  then have b: "extends (fst (live_loop rt locationdata (take j livedata) ?seed)) ?all"
    by (simp add: extends_live_loop)
  have c: "extends ?seed ?all" by (rule extends_live_loop)
  have d: "extends ?all ?out" by (rule extends_merge)
  from a c d have e: "extends (location_loop rt (take i locationdata) []) ?out"
    by (blast intro: extends_trans)
  from b d have f: "extends (fst (live_loop rt locationdata (take j livedata) ?seed)) ?out"
    by (rule extends_trans)
  have g: "has_key m (start_time entry) \<longrightarrow> location_step rt entry m = m"
    by (simp add: location_step_def)
  have h: "map_of m ts = Some ob \<and> obs_get ob k \<noteq> None \<longrightarrow> key_step t ts sample k m = m"
    using key_step_kept by blast
  have first: "map_of ?seed ts =
     map_option (location_observation rt) (find (\<lambda>e. start_time e = ts) locationdata)"
    by (simp add: map_of_location_loop)
  from extends_location_step extends_key_step e f g h first show ?thesis by blast
qed

theorem stored_values_never_overwritten_witness:
  "has_key
     [(1000, \<lparr>time = ''1970-01-01T00:00:01.000Z'', latitude = Some (PInt 10),
         longitude = Some (PInt 20), altitude = None, distance = None, cadence = None,
         heart_rate = Some (PInt 120), speed = None\<rparr>)] 1000 \<and>
   location_step decimal_builtins
     \<lparr>start_time = 1000, location.latitude = PInt 50, location.longitude = PInt 60,
        location.altitude = None\<rparr>
     [(1000, \<lparr>time = ''1970-01-01T00:00:01.000Z'', latitude = Some (PInt 10),
         longitude = Some (PInt 20), altitude = None, distance = None, cadence = None,
         heart_rate = Some (PInt 120), speed = None\<rparr>)] =
     [(1000, \<lparr>time = ''1970-01-01T00:00:01.000Z'', latitude = Some (PInt 10),
         longitude = Some (PInt 20), altitude = None, distance = None, cadence = None,
         heart_rate = Some (PInt 120), speed = None\<rparr>)] \<and>
   obs_get \<lparr>time = ''1970-01-01T00:00:01.000Z'', latitude = Some (PInt 10),
         longitude = Some (PInt 20), altitude = None, distance = None, cadence = None,
         heart_rate = Some (PInt 120), speed = None\<rparr> HeartRate \<noteq> None \<and>
   key_step ''1970-01-01T00:00:01.000Z'' 1000
     \<lparr>start_time = 1000, live.distance = None, live.cadence = None,
        live.heart_rate = Some (PInt 130), live.speed = None\<rparr> HeartRate
     [(1000, \<lparr>time = ''1970-01-01T00:00:01.000Z'', latitude = Some (PInt 10),
         longitude = Some (PInt 20), altitude = None, distance = None, cadence = None,
         heart_rate = Some (PInt 120), speed = None\<rparr>)] =
     [(1000, \<lparr>time = ''1970-01-01T00:00:01.000Z'', latitude = Some (PInt 10),
         longitude = Some (PInt 20), altitude = None, distance = None, cadence = None,
         heart_rate = Some (PInt 120), speed = None\<rparr>)]"
proof -
  let ?ob = "\<lparr>time = ''1970-01-01T00:00:01.000Z'', latitude = Some (PInt 10),
         longitude = Some (PInt 20), altitude = None, distance = None, cadence = None,
         heart_rate = Some (PInt 120), speed = None\<rparr>"
  let ?m = "[(1000::int, ?ob)]"
  have a: "has_key ?m 1000" by (simp add: has_key_def)
  have b: "map_of ?m 1000 = Some ?ob \<and> obs_get ?ob HeartRate \<noteq> None" by simp
  from stored_values_never_overwritten [where m = ?m and entry =
      "\<lparr>start_time = 1000, location.latitude = PInt 50, location.longitude = PInt 60,
        location.altitude = None\<rparr>" and ts = 1000 and ob = ?ob and k = HeartRate
      and rt = decimal_builtins and t = "''1970-01-01T00:00:01.000Z''" and sample =
      "\<lparr>start_time = 1000, live.distance = None, live.cadence = None,
        live.heart_rate = Some (PInt 130), live.speed = None\<rparr>"] a b
  show ?thesis by simp
qed

section \<open>What the merge does to the live samples\<close>





lemmas live_eval =
  merge_location_and_live_data_def location_step_def has_key_def live_step_def effective_time_def
  updated_entry_def coerce_heart_rate_def find_nearest_time_def key_step_def live_keys_def
  location_observation_def time_only_def Let_def




section \<open>Trackpoints and laps\<close>

lemmas trackpoint_eval =
  create_trackpoint_def trackpoint_position_def trackpoint_heart_rate_def
  trackpoint_cadence_def and_then_def sub_text_def has_child_def position_emitted_def

lemma str_int_120: "str_int 120 = ''120''"
  by code_simp

text \<open>
  Claim C1. The code at an observation with latitude, longitude and heart rate and
  without altitude: the trackpoint has the time and the heart rate and no position,
  since \<^verbatim>\<open>create_trackpoint\<close> tests \<^verbatim>\<open>data.get("altitude")\<close> where the claim, and the
  docstring of the function, have the latitude. The same observation with an altitude
  receives its position.
\<close>

theorem position_needs_altitude:
  "create_trackpoint rt
     \<lparr>time = ''1970-01-01T00:00:01.000Z'', latitude = Some (PFloat 10), longitude = Some (PFloat 20),
        altitude = None, distance = None, cadence = None, heart_rate = Some (PInt 120),
        speed = None\<rparr> =
     Inr (Some (Element ''Trackpoint'' [] None
       [Element ''Time'' [] (Some ''1970-01-01T00:00:01.000Z'') [],
        Element ''HeartRateBpm'' [] None [Element ''Value'' [] (Some ''120'') []]])) \<and>
   \<not> position_emitted rt
     \<lparr>time = ''1970-01-01T00:00:01.000Z'', latitude = Some (PFloat 10), longitude = Some (PFloat 20),
        altitude = None, distance = None, cadence = None, heart_rate = Some (PInt 120),
        speed = None\<rparr> \<and>
   position_emitted rt
     \<lparr>time = ''1970-01-01T00:00:01.000Z'', latitude = Some (PFloat 10), longitude = Some (PFloat 20),
        altitude = Some (PFloat 432), distance = None, cadence = None, heart_rate = Some (PInt 120),
        speed = None\<rparr>"
  by (simp add: trackpoint_eval str_int_120)

lemmas lap_eval =
  create_lap_def lap_duration_def lap_distance_def lap_max_speed_def lap_calories_def
  lap_avg_hr_def lap_max_hr_def lap_extensions_def bpm_def and_then_def sub_text_def

text \<open>
  Claim C6. The code at two summaries. With the average heart rate "0.0" and the
  maximum "150.0" the lap has no maximum heart rate, and with the average "120.0" and
  the maximum "0.0" it has the maximum heart rate 0: \<^verbatim>\<open>create_lap\<close> tests
  \<^verbatim>\<open>avg_hr != "0.0"\<close> for both nodes, where the claim gates each node on its own value.
  The values it emits are the decimal digits of an integer.
\<close>

theorem heart_rate_summary_gates:
  "create_lap rt ''2024-05-01T10:00:00.000Z'' [] [] [] ''0.0'' ''150.0'' [] [] [] [] =
     Inr (Element ''Lap'' [(''StartTime'', ''2024-05-01T10:00:00.000Z'')] None
       [Element ''Intensity'' [] (Some ''Active'') [],
        Element ''TriggerMethod'' [] (Some ''Manual'') []]) \<and>
   create_lap decimal_builtins ''2024-05-01T10:00:00.000Z'' [] [] [] ''120.0'' ''0.0'' [] [] [] [] =
     Inr (Element ''Lap'' [(''StartTime'', ''2024-05-01T10:00:00.000Z'')] None
       [Element ''AverageHeartRateBpm'' [] None [Element ''Value'' [] (Some ''120'') []],
        Element ''MaximumHeartRateBpm'' [] None [Element ''Value'' [] (Some ''0'') []],
        Element ''Intensity'' [] (Some ''Active'') [],
        Element ''TriggerMethod'' [] (Some ''Manual'') []])"
proof -
  have a: "float_of_string decimal_builtins ''120.0'' = Some 120"
    unfolding decimal_builtins_def by (simp, code_simp)
  have b: "float_of_string decimal_builtins ''0.0'' = Some 0"
    unfolding decimal_builtins_def by (simp, code_simp)
  have c: "str_int (py_int (PFloat 120)) = ''120''" by code_simp
  have d: "str_int (py_int (PFloat 0)) = ''0''" by code_simp
  show ?thesis
    by (simp add: lap_eval a b c d del: py_int.simps)
qed

section \<open>The track of a session without live data\<close>

lemma tag_append_child [simp]: "tag (append_child e c) = tag e"
  by (cases e) simp

lemma children_append_child [simp]: "children (append_child e c) = children e @ [c]"
  by (cases e) simp

lemma trackless_append:
  "trackless lap \<Longrightarrow> tag c \<noteq> ''Track'' \<Longrightarrow> trackless (append_child lap c)"
  by (simp add: trackless_def has_child_def)

lemma trackless_sub_text:
  "trackless lap \<Longrightarrow> t \<noteq> ''Track'' \<Longrightarrow> trackless (sub_text lap t s)"
  by (simp add: sub_text_def trackless_append)

lemma trackless_duration:
  "trackless lap \<Longrightarrow> lap_duration rt d lap = Inr lap' \<Longrightarrow> trackless lap'"
  by (auto simp: lap_duration_def trackless_sub_text split: if_splits option.splits)

lemma trackless_distance: "trackless lap \<Longrightarrow> trackless (lap_distance d lap)"
  by (simp add: lap_distance_def trackless_sub_text)

lemma trackless_max_speed: "trackless lap \<Longrightarrow> trackless (lap_max_speed d lap)"
  by (simp add: lap_max_speed_def trackless_sub_text)

lemma trackless_calories:
  "trackless lap \<Longrightarrow> lap_calories rt c lap = Inr lap' \<Longrightarrow> trackless lap'"
  by (auto simp: lap_calories_def trackless_sub_text split: if_splits option.splits)

lemma tag_bpm: "bpm rt t s = Inr e \<Longrightarrow> tag e = t"
  by (auto simp: bpm_def split: option.splits)

lemma trackless_avg_hr:
  "trackless lap \<Longrightarrow> lap_avg_hr rt a lap = Inr lap' \<Longrightarrow> trackless lap'"
  by (auto simp: lap_avg_hr_def trackless_append dest!: tag_bpm split: if_splits sum.splits)

lemma trackless_max_hr:
  "trackless lap \<Longrightarrow> lap_max_hr rt a b lap = Inr lap' \<Longrightarrow> trackless lap'"
  by (auto simp: lap_max_hr_def trackless_append dest!: tag_bpm split: if_splits sum.splits)

lemma trackless_extensions: "trackless lap \<Longrightarrow> trackless (lap_extensions a b c lap)"
  by (simp add: lap_extensions_def trackless_append Let_def)

lemma and_then_Inr: "and_then r f = Inr y \<longleftrightarrow> (\<exists>x. r = Inr x \<and> f x = Inr y)"
  by (cases r) (simp_all add: and_then_def)

lemma trackless_create_lap:
  assumes "create_lap rt lap_start duration distance_m calories avg_hr max_hr avg_speed max_speed
       avg_cadence max_cadence = Inr lap"
  shows "trackless lap"
proof -
  from assms obtain l1 l2 l3 l4 where
    s1: "lap_duration rt duration (Element ''Lap'' [(''StartTime'', lap_start)] None []) = Inr l1"
    and s2: "lap_calories rt calories (lap_max_speed max_speed (lap_distance distance_m l1)) = Inr l2"
    and s3: "lap_avg_hr rt avg_hr l2 = Inr l3"
    and s4: "lap_max_hr rt avg_hr max_hr l3 = Inr l4"
    and s5: "lap = lap_extensions avg_speed avg_cadence max_cadence
                 (sub_text (sub_text l4 ''Intensity'' ''Active'') ''TriggerMethod'' ''Manual'')"
    unfolding create_lap_def and_then_Inr by auto
  have "trackless (Element ''Lap'' [(''StartTime'', lap_start)] None [])"
    by (simp add: trackless_def has_child_def)
  from trackless_duration [OF this s1] have "trackless l1" .
  then have "trackless (lap_max_speed max_speed (lap_distance distance_m l1))"
    by (intro trackless_max_speed trackless_distance)
  from trackless_calories [OF this s2] have "trackless l2" .
  from trackless_avg_hr [OF this s3] have "trackless l3" .
  from trackless_max_hr [OF this s4] have "trackless l4" .
  then show ?thesis unfolding s5
    by (intro trackless_extensions trackless_sub_text) simp_all
qed

lemma children_append_trackpoints:
  "children (append_trackpoints track tps) = children track @ List.map_filter id tps"
proof (induction track tps rule: append_trackpoints.induct)
  case (1 track)
  show ?case by (simp add: List.map_filter_simps)
next
  case (2 track tps)
  then show ?case by (simp add: List.map_filter_simps)
next
  case (3 track tp tps)
  then show ?case by (simp add: List.map_filter_simps)
qed

lemma tag_append_trackpoints: "tag (append_trackpoints track tps) = tag track"
  by (induction track tps rule: append_trackpoints.induct) simp_all

lemma map_filter_empty: "List.map_filter id tps = [] \<longleftrightarrow> (\<forall>tp. Some tp \<notin> set tps)"
proof (induction tps)
  case Nil
  show ?case by (simp add: List.map_filter_simps)
next
  case (Cons a tps)
  then show ?case by (cases a) (auto simp: List.map_filter_simps)
qed

lemma has_track_build_xml:
  assumes "trackless lap"
  shows "has_track (build_xml a_id ex_type lap tps) \<longleftrightarrow> (\<exists>tp. Some tp \<in> set tps)"
proof -
  let ?track = "append_trackpoints (Element ''Track'' [] None []) tps"
  from assms have lap: "tag lap = ''Lap''" "\<not> has_child ''Track'' lap"
    by (simp_all add: trackless_def)
  have tag_lap: "tag (lap_with_track lap tps) = ''Lap''"
    using lap(1) by (simp add: lap_with_track_def Let_def)
  have doc: "document_lap (build_xml a_id ex_type lap tps) = Some (lap_with_track lap tps)"
    using tag_lap
    by (simp add: document_lap_def build_xml_def create_root_def child_def create_activity_def
        sub_text_def)
  have "has_child ''Track'' (lap_with_track lap tps) \<longleftrightarrow> List.map_filter id tps \<noteq> []"
    using lap(2)
    by (simp add: lap_with_track_def Let_def children_append_trackpoints has_child_def
        tag_append_trackpoints)
  with doc show ?thesis by (simp add: has_track_def map_filter_empty)
qed

lemma create_trackpoint_quiet:
  assumes "quiet ob"
  shows "\<exists>tp. create_trackpoint rt ob = Inr tp \<and> (tp \<noteq> None \<longleftrightarrow> position_emitted rt ob)"
proof -
  from assms obtain la where "observation.latitude ob = Some la"
    and "\<not> get_truthy (observation.heart_rate ob)" and "\<not> get_truthy (observation.cadence ob)"
    by (auto simp: quiet_def)
  then show ?thesis
    by (simp add: trackpoint_eval)
qed

lemma trackpoints_of_quiet:
  "\<forall>x\<in>set m. quiet (snd x) \<Longrightarrow>
   \<exists>tps. trackpoints_of rt m = Inr tps \<and>
     ((\<exists>tp. Some tp \<in> set tps) \<longleftrightarrow> list_ex (\<lambda>x. position_emitted rt (snd x)) m)"
proof (induction m)
  case Nil
  show ?case by simp
next
  case (Cons x m)
  obtain d ob where x: "x = (d, ob)" by (cases x)
  from Cons.prems have "quiet ob" and rest: "\<forall>x\<in>set m. quiet (snd x)" by (simp_all add: x)
  from create_trackpoint_quiet [OF this(1)] obtain tp where
    tp: "create_trackpoint rt ob = Inr tp" "tp \<noteq> None \<longleftrightarrow> position_emitted rt ob" by blast
  from Cons.IH [OF rest] obtain tps where
    tps: "trackpoints_of rt m = Inr tps"
      "(\<exists>tp. Some tp \<in> set tps) \<longleftrightarrow> list_ex (\<lambda>x. position_emitted rt (snd x)) m" by blast
  have "trackpoints_of rt (x # m) = Inr (tp # tps)"
    by (simp add: x tp(1) tps(1) and_then_def)
  moreover have "(\<exists>t. Some t \<in> set (tp # tps)) \<longleftrightarrow>
      list_ex (\<lambda>x. position_emitted rt (snd x)) (x # m)"
    using tp(2) tps(2) by (cases tp) (auto simp: x)
  ultimately show ?case by blast
qed

lemma set_location_loop:
  "x \<in> set (location_loop rt locationdata m) \<Longrightarrow>
   x \<in> set m \<or> (\<exists>e\<in>set locationdata. snd x = location_observation rt e)"
proof (induction locationdata arbitrary: m)
  case Nil
  then show ?case by simp
next
  case (Cons entry rest)
  from Cons.IH [OF Cons.prems [simplified]]
  have "x \<in> set (location_step rt entry m) \<or> (\<exists>e\<in>set rest. snd x = location_observation rt e)" .
  then show ?case
    by (auto simp: location_step_def dest!: set_update_cases split: if_splits)
qed

lemma forward_fill_quiet:
  "\<forall>x\<in>set m. observation.latitude (snd x) \<noteq> None \<and> observation.heart_rate (snd x) = None \<and>
      observation.cadence (snd x) = None \<Longrightarrow>
   \<forall>x\<in>set (forward_fill (PInt 0) m). quiet (snd x)"
  by (induction m) (auto simp: quiet_def)

lemma merge_without_live_data_quiet:
  "\<forall>x\<in>set (fst (merge_location_and_live_data rt locationdata [])). quiet (snd x)"
proof -
  have "\<forall>x\<in>set (collected rt locationdata []). observation.latitude (snd x) \<noteq> None \<and>
      observation.heart_rate (snd x) = None \<and> observation.cadence (snd x) = None"
    by (auto simp: collected_def location_observation_def dest!: set_location_loop)
  from forward_fill_quiet [OF this] show ?thesis
    by (simp add: merge_location_and_live_data_def)
qed

lemma prepare_without_live_data:
  assumes "ex ''live_data'' = []"
    and "create_lap rt (lap_start_time ex) (ex ''duration'') (ex ''distance'') (ex ''total_calorie'')
          (ex ''mean_heart_rate'') (ex ''max_heart_rate'') (ex ''mean_speed'') (ex ''max_speed'')
          (ex ''mean_cadence'') (ex ''max_cadence'') = Inr lap"
  shows "\<exists>doc. prepare_exercise_data rt fetch_live_data fetch_location_data ex = Inr doc \<and>
     (has_track doc \<longleftrightarrow>
        list_ex (\<lambda>x. position_emitted rt (snd x))
          (fst (merge_location_and_live_data rt
             (session_location_data fetch_location_data ex) [])))"
proof -
  let ?data = "fst (merge_location_and_live_data rt (session_location_data fetch_location_data ex) [])"
  from trackpoints_of_quiet [OF merge_without_live_data_quiet] obtain tps where
    tps: "trackpoints_of rt ?data = Inr tps"
      "(\<exists>tp. Some tp \<in> set tps) \<longleftrightarrow> list_ex (\<lambda>x. position_emitted rt (snd x)) ?data"
    by blast
  have live: "session_live_data fetch_live_data ex = []"
    using assms(1) by (simp add: session_live_data_def)
  have "prepare_exercise_data rt fetch_live_data fetch_location_data ex =
      Inr (build_xml (lap_start_time ex) (convert_activity_type (ex ''exercise_type'')) lap tps)"
    by (simp add: prepare_exercise_data_def assms(2) live tps(1) and_then_def Let_def)
  moreover from has_track_build_xml [OF trackless_create_lap [OF assms(2)]] tps(2)
  have "has_track (build_xml (lap_start_time ex) (convert_activity_type (ex ''exercise_type'')) lap tps)
      \<longleftrightarrow> list_ex (\<lambda>x. position_emitted rt (snd x)) ?data"
    by simp
  ultimately show ?thesis by simp
qed

lemma example_lap:
  "create_lap rt (lap_start_time example_session) (example_session ''duration'')
     (example_session ''distance'') (example_session ''total_calorie'')
     (example_session ''mean_heart_rate'') (example_session ''max_heart_rate'')
     (example_session ''mean_speed'') (example_session ''max_speed'')
     (example_session ''mean_cadence'') (example_session ''max_cadence'') =
   Inr (Element ''Lap'' [(''StartTime'', ''2024-05-01T10:00:00.000Z'')] None
       [Element ''Intensity'' [] (Some ''Active'') [],
        Element ''TriggerMethod'' [] (Some ''Manual'') []])"
  by (simp add: lap_eval example_session_def lap_start_time_def)

lemma example_position:
  "list_ex (\<lambda>x. position_emitted rt (snd x))
     (fst (merge_location_and_live_data rt
        [\<lparr>start_time = 1000, location.latitude = PFloat (95 / 2),
           location.longitude = PFloat (17 / 2), location.altitude = Some (PFloat 432)\<rparr>] []))"
  by (simp add: live_eval collected_def trackpoint_eval)

text \<open>
  Claim C5, as stated, fails: a session without live data whose single positional
  sample has latitude, longitude and altitude yields a document whose lap has a track.
\<close>

theorem positions_alone_give_track_counterexample:
  "example_session ''live_data'' = [] \<and>
   session_location_data
     (\<lambda>uuid. [\<lparr>start_time = 1000, location.latitude = PFloat (95 / 2),
        location.longitude = PFloat (17 / 2), location.altitude = Some (PFloat 432)\<rparr>])
     example_session \<noteq> [] \<and>
   (case prepare_exercise_data decimal_builtins (\<lambda>uuid. [])
       (\<lambda>uuid. [\<lparr>start_time = 1000, location.latitude = PFloat (95 / 2),
          location.longitude = PFloat (17 / 2), location.altitude = Some (PFloat 432)\<rparr>])
       example_session of
      Inl e \<Rightarrow> False
    | Inr doc \<Rightarrow> has_track doc)"
proof -
  let ?fetch = "\<lambda>uuid :: string. [\<lparr>start_time = 1000, location.latitude = PFloat (95 / 2),
        location.longitude = PFloat (17 / 2), location.altitude = Some (PFloat 432)\<rparr>]"
  have flag: "example_session ''live_data'' = []" by (simp add: example_session_def)
  have store: "session_location_data ?fetch example_session =
      [\<lparr>start_time = 1000, location.latitude = PFloat (95 / 2),
        location.longitude = PFloat (17 / 2), location.altitude = Some (PFloat 432)\<rparr>]"
    by (simp add: session_location_data_def example_session_def)
  from prepare_without_live_data [OF flag example_lap, of decimal_builtins "\<lambda>uuid. []" ?fetch]
  obtain doc where "prepare_exercise_data decimal_builtins (\<lambda>uuid. []) ?fetch example_session = Inr doc"
    and "has_track doc"
    unfolding store using example_position [of decimal_builtins] by blast
  with flag store show ?thesis by simp
qed

text \<open>
  Claim C5, amended. For a session whose live-data flag is empty and whose lap can be
  built, \<^verbatim>\<open>prepare_exercise_data\<close> returns a document (no \<^verbatim>\<open>KeyError\<close> arises; the time
  strings are taken to exist), and the lap of the document has a track if and only if
  some observation of the merged positional samples receives a position node: without
  live data no observation has a truthy heart rate or a cadence, so nothing else makes
  a trackpoint non-empty.
\<close>

theorem track_without_live_data:
  assumes "ex ''live_data'' = []"
    and "create_lap rt (lap_start_time ex) (ex ''duration'') (ex ''distance'') (ex ''total_calorie'')
          (ex ''mean_heart_rate'') (ex ''max_heart_rate'') (ex ''mean_speed'') (ex ''max_speed'')
          (ex ''mean_cadence'') (ex ''max_cadence'') = Inr lap"
  shows "\<exists>doc. prepare_exercise_data rt fetch_live_data fetch_location_data ex = Inr doc \<and>
     (has_track doc \<longleftrightarrow>
        list_ex (\<lambda>x. position_emitted rt (snd x))
          (fst (merge_location_and_live_data rt
             (session_location_data fetch_location_data ex) [])))"
  using assms by (rule prepare_without_live_data)

theorem track_without_live_data_witness:
  "example_session ''live_data'' = [] \<and>
   create_lap decimal_builtins (lap_start_time example_session) (example_session ''duration'')
     (example_session ''distance'') (example_session ''total_calorie'')
     (example_session ''mean_heart_rate'') (example_session ''max_heart_rate'')
     (example_session ''mean_speed'') (example_session ''max_speed'')
     (example_session ''mean_cadence'') (example_session ''max_cadence'') =
   Inr (Element ''Lap'' [(''StartTime'', ''2024-05-01T10:00:00.000Z'')] None
       [Element ''Intensity'' [] (Some ''Active'') [],
        Element ''TriggerMethod'' [] (Some ''Manual'') []]) \<and>
   (\<exists>doc. prepare_exercise_data decimal_builtins (\<lambda>uuid. [])
       (\<lambda>uuid. [\<lparr>start_time = 1000, location.latitude = PFloat (95 / 2),
          location.longitude = PFloat (17 / 2), location.altitude = Some (PFloat 432)\<rparr>])
       example_session = Inr doc \<and> has_track doc)"
proof -
  let ?fetch = "\<lambda>uuid :: string. [\<lparr>start_time = 1000, location.latitude = PFloat (95 / 2),
        location.longitude = PFloat (17 / 2), location.altitude = Some (PFloat 432)\<rparr>]"
  have flag: "example_session ''live_data'' = []" by (simp add: example_session_def)
  have store: "session_location_data ?fetch example_session =
      [\<lparr>start_time = 1000, location.latitude = PFloat (95 / 2),
        location.longitude = PFloat (17 / 2), location.altitude = Some (PFloat 432)\<rparr>]"
    by (simp add: session_location_data_def example_session_def)
  from track_without_live_data [OF flag example_lap, of decimal_builtins "\<lambda>uuid. []" ?fetch]
  have "\<exists>doc. prepare_exercise_data decimal_builtins (\<lambda>uuid. []) ?fetch example_session = Inr doc \<and>
      has_track doc"
    unfolding store using example_position [of decimal_builtins] by blast
  with flag example_lap [of decimal_builtins] show ?thesis by blast
qed

end
